theory Spec2Isabelle
  imports Complex_Main "HOL-Library.AList"
begin

section \<open>Python values and exceptions\<close>

text \<open>
  The Python sources pass around dynamically typed values: cached objects, parsed JSON
  documents, dictionaries describing emails. They are modelled by one datatype. A \<open>dict\<close> is
  an association list in insertion order. Strings are lists of 8-bit characters; a character
  beyond ASCII is the sequence of its UTF-8 bytes, and no such byte is a letter or a
  whitespace character for the string functions below.
\<close>

datatype pyval =
    PyNone
  | PyBool bool
  | PyInt int
  | PyFloat real
  | PyStr string
  | PyList "pyval list"
  | PyDict "(string \<times> pyval) list"

text \<open>Truth value testing, as \<open>if x:\<close> and \<open>x or y\<close> do it.\<close>

fun truthy :: "pyval \<Rightarrow> bool" where
  "truthy PyNone = False"
| "truthy (PyBool b) = b"
| "truthy (PyInt i) = (i \<noteq> 0)"
| "truthy (PyFloat r) = (r \<noteq> 0)"
| "truthy (PyStr s) = (s \<noteq> [])"
| "truthy (PyList xs) = (xs \<noteq> [])"
| "truthy (PyDict d) = (d \<noteq> [])"

text \<open>
  Exceptions deriving from \<open>Exception\<close>, each with its message. \<open>Exception\<close> itself stands
  for any error raised by a collaborator outside the modelled code (a provider SDK, SMTP,
  file I/O).
\<close>

datatype exn =
    KeyError string
  | TypeError string
  | AttributeError string
  | OverflowError string
  | JSONDecodeError string
  | ValueError string
  | Exception string

text \<open>\<open>str(e)\<close>: the message; a \<open>KeyError\<close> prints the \<open>repr\<close> of its key.\<close>

fun str_exn :: "exn \<Rightarrow> string" where
  "str_exn (KeyError k) = [CHR 0x27] @ k @ [CHR 0x27]"
| "str_exn (TypeError m) = m"
| "str_exn (AttributeError m) = m"
| "str_exn (OverflowError m) = m"
| "str_exn (JSONDecodeError m) = m"
| "str_exn (ValueError m) = m"
| "str_exn (Exception m) = m"

section \<open>The TTL cache (services/cache\_service.py)\<close>

subsection \<open>Time\<close>

text \<open>
  A \<open>datetime\<close> is the number of microseconds since \<open>datetime.min\<close> (0001-01-01 00:00:00);
  \<open>datetime.max\<close> is the last microsecond of the year 9999, day number 3652059. Every value
  read from \<open>datetime.now()\<close> is a parameter of the operation that reads it. Adding a
  \<open>timedelta\<close> that leaves this range raises \<open>OverflowError\<close>.
\<close>

definition datetime_max :: int where
  "datetime_max = 3652059 * 86400 * 1000000 - 1"

definition datetime_ok :: "int \<Rightarrow> bool" where
  "datetime_ok t = (0 \<le> t \<and> t \<le> datetime_max)"

definition timedelta_seconds :: "int \<Rightarrow> int" where
  "timedelta_seconds s = s * 1000000"

subsection \<open>CacheEntry\<close>

record CacheEntry =
  "value" :: pyval
  created_at :: int
  expires_at :: int
  access_count :: nat
  last_accessed :: int

text \<open>
  \<open>CacheEntry.__init__(value, ttl)\<close>, reading the clock once. The sum
  \<open>created_at + timedelta(seconds=ttl)\<close> is the only statement that can raise.
\<close>

definition CacheEntry_init :: "pyval \<Rightarrow> int \<Rightarrow> int \<Rightarrow> exn + CacheEntry" where
  "CacheEntry_init v ttl now =
     (if datetime_ok (now + timedelta_seconds ttl)
      then Inr \<lparr> value = v, created_at = now, expires_at = now + timedelta_seconds ttl,
                 access_count = 0, last_accessed = now \<rparr>
      else Inl (OverflowError ''date value out of range''))"

definition is_expired :: "CacheEntry \<Rightarrow> int \<Rightarrow> bool" where
  "is_expired e now = (now > expires_at e)"

definition access :: "CacheEntry \<Rightarrow> int \<Rightarrow> CacheEntry" where
  "access e now = e \<lparr> access_count := access_count e + 1, last_accessed := now \<rparr>"

subsection \<open>CacheService\<close>

text \<open>
  \<open>self.cache\<close> is a \<open>dict\<close>: an association list in insertion order, which is the order
  \<open>min\<close> scans in \<open>_evict_oldest\<close>. Assigning to a present key keeps its position
  (\<open>AList.update\<close>), \<open>del\<close> removes the key (\<open>AList.delete\<close>).
  \<open>cleanup_task_started\<close> records that the first \<open>get\<close> has created the background task.
\<close>

record CacheService =
  cache :: "(string \<times> CacheEntry) list"
  max_size :: nat
  default_ttl :: int
  cleanup_interval :: int
  cleanup_task_started :: bool

definition CacheService_init :: CacheService where
  "CacheService_init =
     \<lparr> cache = [], max_size = 1000, default_ttl = 3600, cleanup_interval = 300,
       cleanup_task_started = False \<rparr>"

text \<open>
  \<open>min(iterable, key=f)\<close> keeps the first element whose key is smallest: the running best
  is replaced only by a strictly smaller one.
\<close>

fun min_by :: "('a \<Rightarrow> int) \<Rightarrow> 'a \<Rightarrow> 'a list \<Rightarrow> 'a" where
  "min_by f best [] = best"
| "min_by f best (x # xs) = min_by f (if f x < f best then x else best) xs"

definition oldest_key :: "(string \<times> CacheEntry) list \<Rightarrow> string option" where
  "oldest_key al =
     (case al of [] \<Rightarrow> None
      | p # ps \<Rightarrow> Some (fst (min_by (\<lambda>q. last_accessed (snd q)) p ps)))"

text \<open>\<open>_evict_oldest\<close>: nothing on an empty store, else delete the least recently accessed key.\<close>

definition evict_oldest :: "CacheService \<Rightarrow> CacheService" where
  "evict_oldest c =
     (case oldest_key (cache c) of
        None \<Rightarrow> c
      | Some k \<Rightarrow> c \<lparr> cache := AList.delete k (cache c) \<rparr>)"

text \<open>
  \<open>get(key)\<close> reads the clock in \<open>is_expired\<close> (\<open>now\<close>) and again in \<open>access\<close> (\<open>now'\<close>).
  The result \<open>PyNone\<close> is Python's \<open>None\<close>: a miss, an expired entry, or a stored \<open>None\<close>.
\<close>

definition CacheService_get ::
  "CacheService \<Rightarrow> string \<Rightarrow> int \<Rightarrow> int \<Rightarrow> pyval \<times> CacheService" where
  "CacheService_get c key now now' =
     (let c0 = c \<lparr> cleanup_task_started := True \<rparr> in
      case map_of (cache c0) key of
        None \<Rightarrow> (PyNone, c0)
      | Some entry \<Rightarrow>
          if is_expired entry now
          then (PyNone, c0 \<lparr> cache := AList.delete key (cache c0) \<rparr>)
          else (value entry,
                c0 \<lparr> cache := AList.update key (access entry now') (cache c0) \<rparr>))"

text \<open>
  \<open>set(key, value, ttl)\<close>; a \<open>ttl\<close> of \<open>None\<close> means \<open>default_ttl\<close>. The entry is created first; if that raises, the handler returns
  \<open>False\<close> and the store is untouched. Otherwise a full store evicts once, the entry is
  stored and the result is \<open>True\<close>.
\<close>

definition effective_ttl :: "CacheService \<Rightarrow> int option \<Rightarrow> int" where
  "effective_ttl c ttl = (case ttl of None \<Rightarrow> default_ttl c | Some t \<Rightarrow> t)"

definition CacheService_set ::
  "CacheService \<Rightarrow> string \<Rightarrow> pyval \<Rightarrow> int option \<Rightarrow> int \<Rightarrow> bool \<times> CacheService" where
  "CacheService_set c key v ttl now =
     (case CacheEntry_init v (effective_ttl c ttl) now of
        Inl e \<Rightarrow> (False, c)
      | Inr entry \<Rightarrow>
          let c1 = (if length (cache c) \<ge> max_size c then evict_oldest c else c)
          in (True, c1 \<lparr> cache := AList.update key entry (cache c1) \<rparr>))"

definition CacheService_delete :: "CacheService \<Rightarrow> string \<Rightarrow> bool \<times> CacheService" where
  "CacheService_delete c key =
     (if key \<in> fst ` set (cache c)
      then (True, c \<lparr> cache := AList.delete key (cache c) \<rparr>)
      else (False, c))"

definition CacheService_clear :: "CacheService \<Rightarrow> bool \<times> CacheService" where
  "CacheService_clear c = (True, c \<lparr> cache := [] \<rparr>)"

definition CacheService_exists :: "CacheService \<Rightarrow> string \<Rightarrow> int \<Rightarrow> bool \<times> CacheService" where
  "CacheService_exists c key now =
     (case map_of (cache c) key of
        None \<Rightarrow> (False, c)
      | Some entry \<Rightarrow>
          if is_expired entry now
          then (False, c \<lparr> cache := AList.delete key (cache c) \<rparr>)
          else (True, c))"

text \<open>
  One round of the background task \<open>_cleanup_expired_entries\<close> after its sleep: every
  entry expired at \<open>now\<close> is deleted.
\<close>

definition cleanup_expired_entries :: "CacheService \<Rightarrow> int \<Rightarrow> CacheService" where
  "cleanup_expired_entries c now =
     c \<lparr> cache := filter (\<lambda>(k, e). \<not> is_expired e now) (cache c) \<rparr>"

text \<open>
  \<open>get_or_set(key, factory_func, ttl)\<close>. The factory is a callable that may answer
  differently each time: \<open>factory n\<close> is the outcome of its call number \<open>n\<close> (from 0).
  The result carries the number of factory calls made. The handler of the outer \<open>try\<close>
  calls the factory again and lets a second failure escape.
\<close>

record get_or_set_result =
  outcome :: "exn + pyval"
  service :: CacheService
  factory_calls :: nat

definition CacheService_get_or_set ::
  "CacheService \<Rightarrow> string \<Rightarrow> (nat \<Rightarrow> exn + pyval) \<Rightarrow> int option \<Rightarrow> int \<Rightarrow> int \<Rightarrow> int
     \<Rightarrow> get_or_set_result" where
  "CacheService_get_or_set c key factory ttl now now' now_set =
     (case CacheService_get c key now now' of
        (v, c1) \<Rightarrow>
          if v \<noteq> PyNone
          then \<lparr> outcome = Inr v, service = c1, factory_calls = 0 \<rparr>
          else (case factory 0 of
                  Inr w \<Rightarrow>
                    \<lparr> outcome = Inr w,
                      service = snd (CacheService_set c1 key w ttl now_set),
                      factory_calls = 1 \<rparr>
                | Inl e \<Rightarrow>
                    \<lparr> outcome = factory 1, service = c1, factory_calls = 2 \<rparr>))"

text \<open>The public operations as data, to speak about every sequence of calls.\<close>

datatype cache_op =
    OpGet string int int
  | OpSet string pyval "int option" int
  | OpDelete string
  | OpClear
  | OpExists string int
  | OpCleanup int
  | OpGetOrSet string "nat \<Rightarrow> exn + pyval" "int option" int int int

fun apply_op :: "CacheService \<Rightarrow> cache_op \<Rightarrow> CacheService" where
  "apply_op c (OpGet k now now') = snd (CacheService_get c k now now')"
| "apply_op c (OpSet k v ttl now) = snd (CacheService_set c k v ttl now)"
| "apply_op c (OpDelete k) = snd (CacheService_delete c k)"
| "apply_op c OpClear = snd (CacheService_clear c)"
| "apply_op c (OpExists k now) = snd (CacheService_exists c k now)"
| "apply_op c (OpCleanup now) = cleanup_expired_entries c now"
| "apply_op c (OpGetOrSet k f ttl now now' now_set) =
     service (CacheService_get_or_set c k f ttl now now' now_set)"

definition run_ops :: "CacheService \<Rightarrow> cache_op list \<Rightarrow> CacheService" where
  "run_ops c ops = foldl apply_op c ops"

text \<open>The invariant of the store: keys are unique, as in any \<open>dict\<close>.\<close>

definition cache_inv :: "CacheService \<Rightarrow> bool" where
  "cache_inv c = distinct (map fst (cache c))"

text \<open>A store within its bound; the bound itself is positive (the source fixes it at 1000).\<close>

definition cache_bounded :: "CacheService \<Rightarrow> bool" where
  "cache_bounded c = (cache_inv c \<and> 0 < max_size c \<and> length (cache c) \<le> max_size c)"

text \<open>Sample stores and factories on which the statements below are evaluated.\<close>

definition sample_store :: CacheService where
  "sample_store =
     \<lparr> cache =
         [(''a'', \<lparr> value = PyStr ''x'', created_at = 10, expires_at = 1000,
                    access_count = 3, last_accessed = 50 \<rparr>),
          (''b'', \<lparr> value = PyNone, created_at = 15, expires_at = 1000,
                    access_count = 0, last_accessed = 20 \<rparr>)],
       max_size = 2, default_ttl = 3600, cleanup_interval = 300,
       cleanup_task_started = True \<rparr>"

definition flaky_factory :: "nat \<Rightarrow> exn + pyval" where
  "flaky_factory n = (if n = 0 then Inl (Exception ''boom'') else Inr (PyStr ''second''))"

definition const_factory :: "pyval \<Rightarrow> nat \<Rightarrow> exn + pyval" where
  "const_factory v n = Inr v"

definition failing_factory :: "nat \<Rightarrow> exn + pyval" where
  "failing_factory n = Inl (Exception ''boom'')"

section \<open>The LLM manager (agents/llm\_manager.py)\<close>

text \<open>
  The registry: \<open>self.models\<close> maps an identifier to its client handle, \<open>self.model_order\<close>
  lists the identifiers in the order they are tried. A handle is the class and the
  arguments it was constructed with. Two things lie outside the source and are parameters:
  whether a client constructor raises (\<open>ctor_error\<close>), and what a completion call does
  (\<open>ainvoke\<close>: it raises, or returns the text of \<open>response.content\<close>).
\<close>

record Settings =
  openai_api_key :: "string option"
  groq_api_key :: "string option"
  google_api_key :: "string option"
  anthropic_api_key :: "string option"

record ChatModel =
  client_class :: string
  api_key :: string
  model :: string
  max_tokens :: nat
  temperature :: real

record LLMManager =
  models :: "(string \<times> ChatModel) list"
  model_order :: "string list"

text \<open>One block of \<open>_initialize_models\<close>: the key test, the guarded constructor, the registration.\<close>

definition register_model ::
  "(ChatModel \<Rightarrow> exn option) \<Rightarrow> string \<Rightarrow> string option \<Rightarrow> string \<Rightarrow> string \<Rightarrow> string
     \<Rightarrow> LLMManager \<Rightarrow> LLMManager" where
  "register_model ctor_error name key placeholder cls model_name m =
     (case key of
        None \<Rightarrow> m
      | Some k \<Rightarrow>
          if k \<noteq> [] \<and> k \<noteq> placeholder
          then (let h = \<lparr> client_class = cls, api_key = k, model = model_name,
                          max_tokens = 2000, temperature = 7 / 10 \<rparr>
                in case ctor_error h of
                     None \<Rightarrow> m \<lparr> models := AList.update name h (models m),
                                model_order := model_order m @ [name] \<rparr>
                   | Some e \<Rightarrow> m)
          else m)"

definition initialize_models :: "(ChatModel \<Rightarrow> exn option) \<Rightarrow> Settings \<Rightarrow> exn + LLMManager" where
  "initialize_models ctor_error settings =
     (let m0 = \<lparr> models = [], model_order = [] \<rparr>;
          m1 = register_model ctor_error ''openai'' (openai_api_key settings)
                 ''your_openai_key'' ''ChatOpenAI'' ''gpt-3.5-turbo'' m0;
          m2 = register_model ctor_error ''groq'' (groq_api_key settings)
                 ''your_groq_key'' ''ChatGroq'' ''llama-3.1-8b-instant'' m1;
          m3 = register_model ctor_error ''google'' (google_api_key settings)
                 ''your_google_key'' ''ChatGoogleGenerativeAI'' ''gemini-1.5-flash'' m2;
          m4 = register_model ctor_error ''anthropic'' (anthropic_api_key settings)
                 ''your_anthropic_key'' ''ChatAnthropic'' ''claude-3-sonnet-20240229'' m3
      in if models m4 = []
         then Inl (ValueError ''No LLM models available! Please configure API keys in .env file'')
         else Inr m4)"

text \<open>What \<open>_initialize_models\<close> establishes: the order has no duplicates and lists exactly the keys.\<close>

definition manager_ok :: "LLMManager \<Rightarrow> bool" where
  "manager_ok m =
     (distinct (model_order m) \<and> set (model_order m) = fst ` set (models m)
      \<and> [] \<notin> set (model_order m))"

datatype message = SystemMessage string | HumanMessage string

text \<open>
  The result dictionary of \<open>generate_text\<close>; \<open>processing_time\<close>, a difference of two
  wall-clock readings, is left out.
\<close>

record generate_result =
  success :: bool
  response :: string
  model_used :: "string option"
  error :: "string option"

text \<open>The first lines of \<open>generate_text\<close>: a truthy, registered preference goes first.\<close>

definition preferred_first :: "LLMManager \<Rightarrow> string option \<Rightarrow> string list" where
  "preferred_first m preferred_model =
     (case preferred_model of
        None \<Rightarrow> []
      | Some p \<Rightarrow> if p \<noteq> [] \<and> p \<in> fst ` set (models m) then [p] else [])"

text \<open>The loop over \<open>self.model_order\<close> that appends what is not yet in \<open>models_to_try\<close>.\<close>

fun add_others :: "string list \<Rightarrow> string list \<Rightarrow> string list" where
  "add_others acc [] = acc"
| "add_others acc (x # xs) = add_others (if x \<in> set acc then acc else acc @ [x]) xs"

definition models_to_try :: "LLMManager \<Rightarrow> string option \<Rightarrow> string list" where
  "models_to_try m preferred_model = add_others (preferred_first m preferred_model) (model_order m)"

definition prepare_messages :: "string \<Rightarrow> string option \<Rightarrow> message list" where
  "prepare_messages prompt system_prompt =
     (case system_prompt of
        None \<Rightarrow> []
      | Some s \<Rightarrow> if s \<noteq> [] then [SystemMessage s] else []) @ [HumanMessage prompt]"

definition all_failed :: generate_result where
  "all_failed =
     \<lparr> success = False,
       response = ''I apologize, but I'm unable to generate a response at this time. Please try again later.'',
       model_used = None,
       error = Some ''All LLM models failed to generate response'' \<rparr>"

text \<open>
  The loop that tries each candidate. The second component of the result lists the
  identifiers whose client was invoked, in order. A candidate without a handle raises
  \<open>KeyError\<close> inside the \<open>try\<close> before any call and is skipped like a failing call.
\<close>

fun try_models ::
  "LLMManager \<Rightarrow> (ChatModel \<Rightarrow> message list \<Rightarrow> exn + string) \<Rightarrow> message list
     \<Rightarrow> string list \<Rightarrow> string list \<Rightarrow> generate_result \<times> string list" where
  "try_models m ainvoke msgs [] invoked = (all_failed, invoked)"
| "try_models m ainvoke msgs (model_name # rest) invoked =
     (case map_of (models m) model_name of
        None \<Rightarrow> try_models m ainvoke msgs rest invoked
      | Some h \<Rightarrow>
         (case ainvoke h msgs of
            Inr content \<Rightarrow>
              (\<lparr> success = True, response = content, model_used = Some model_name,
                 error = None \<rparr>, invoked @ [model_name])
          | Inl e \<Rightarrow> try_models m ainvoke msgs rest (invoked @ [model_name])))"

definition generate_text ::
  "LLMManager \<Rightarrow> (ChatModel \<Rightarrow> message list \<Rightarrow> exn + string) \<Rightarrow> string \<Rightarrow> string option
     \<Rightarrow> string option \<Rightarrow> generate_result \<times> string list" where
  "generate_text m ainvoke prompt system_prompt preferred_model =
     try_models m ainvoke (prepare_messages prompt system_prompt)
       (models_to_try m preferred_model) []"

text \<open>
  \<open>str.strip()\<close> and the whitespace it removes from ASCII text: tab, line feed, vertical
  tab, form feed, carriage return, the four separators 0x1C to 0x1F, and space.
\<close>

definition py_isspace :: "char \<Rightarrow> bool" where
  "py_isspace ch = (let n = (of_char ch :: nat) in (9 \<le> n \<and> n \<le> 13) \<or> (28 \<le> n \<and> n \<le> 32))"

definition strip :: "string \<Rightarrow> string" where
  "strip s = rev (dropWhile py_isspace (rev (dropWhile py_isspace s)))"

definition extract_sender_name_prompt :: string where
  "extract_sender_name_prompt =
     ''You are an expert email parser. Extract the sender's name from the email content. '' @
     [CHR 0x0A] @
     ''        Return only the name, nothing else. If no clear name is found, return 'Unknown'.''"

text \<open>\<open>LLMManager.extract_sender_name\<close>: \<open>None\<close> when every model failed.\<close>

definition extract_sender_name ::
  "LLMManager \<Rightarrow> (ChatModel \<Rightarrow> message list \<Rightarrow> exn + string) \<Rightarrow> string \<Rightarrow> string option
     \<Rightarrow> string option" where
  "extract_sender_name m ainvoke email_content preferred_model =
     (let result = fst (generate_text m ainvoke email_content (Some extract_sender_name_prompt)
                          preferred_model)
      in if success result
         then (let name = strip (response result)
               in if name \<noteq> [] \<and> name \<noteq> ''Unknown'' then Some name else None)
         else None)"

definition email_reply_prompt :: "string \<Rightarrow> string" where
  "email_reply_prompt sender_name =
     ''You are a professional email assistant. Generate a helpful, '' @ [CHR 0x0A] @
     ''        concise reply to '' @ sender_name @
     ''. Be polite, professional, and address their concerns appropriately.'' @ [CHR 0x0A] @
     ''        Keep the response brief and to the point.''"

text \<open>\<open>LLMManager.generate_email_reply\<close>: a fixed sentence when every model failed.\<close>

definition generate_email_reply ::
  "LLMManager \<Rightarrow> (ChatModel \<Rightarrow> message list \<Rightarrow> exn + string) \<Rightarrow> string \<Rightarrow> string
     \<Rightarrow> string option \<Rightarrow> string" where
  "generate_email_reply m ainvoke sender_name email_content preferred_model =
     (let result = fst (generate_text m ainvoke email_content
                          (Some (email_reply_prompt sender_name)) preferred_model)
      in if success result
         then response result
         else ''Thank you for your email, '' @ sender_name @ ''. I'll get back to you soon.'')"

text \<open>A registry and a provider behaviour on which the statements are evaluated.\<close>

definition sample_settings :: Settings where
  "sample_settings =
     \<lparr> openai_api_key = Some ''sk-1'', groq_api_key = Some ''gsk-2'',
       google_api_key = Some ''g-3'', anthropic_api_key = Some ''your_anthropic_key'' \<rparr>"

definition sample_manager :: LLMManager where
  "sample_manager =
     \<lparr> models =
         [(''openai'', \<lparr> client_class = ''ChatOpenAI'', api_key = ''sk-1'',
                         model = ''gpt-3.5-turbo'', max_tokens = 2000, temperature = 7 / 10 \<rparr>),
          (''groq'', \<lparr> client_class = ''ChatGroq'', api_key = ''gsk-2'',
                       model = ''llama-3.1-8b-instant'', max_tokens = 2000, temperature = 7 / 10 \<rparr>),
          (''google'', \<lparr> client_class = ''ChatGoogleGenerativeAI'', api_key = ''g-3'',
                         model = ''gemini-1.5-flash'', max_tokens = 2000, temperature = 7 / 10 \<rparr>)],
       model_order = [''openai'', ''groq'', ''google''] \<rparr>"

definition google_only :: "ChatModel \<Rightarrow> message list \<Rightarrow> exn + string" where
  "google_only h msgs =
     (if client_class h = ''ChatGoogleGenerativeAI'' then Inr ''Jane Doe''
      else Inl (Exception ''rate limit''))"

definition all_down :: "ChatModel \<Rightarrow> message list \<Rightarrow> exn + string" where
  "all_down h msgs = Inl (Exception ''connection refused'')"

section \<open>Intent classification (agents/email\_workflow.py, agents/validation\_agent.py)\<close>

subsection \<open>String operations\<close>

text \<open>
  \<open>str.isascii()\<close>: every character has a code below 128. The operations on characters
  (\<open>lower\<close>, \<open>strip\<close>, the matching of a pattern letter, \<open>len\<close>) are those of Python
  on ASCII text, where a character is one byte; what Python does with the other characters
  of Unicode (further whitespace and case pairs, characters of several bytes) is not
  modelled, and every statement that rests on one of these operations assumes \<open>isascii\<close>
  of the text.
\<close>

definition isascii :: "string \<Rightarrow> bool" where
  "isascii s = list_all (\<lambda>c. (of_char c :: nat) < 128) s"

text \<open>
  \<open>str.lower()\<close> on ASCII text: the letters A to Z are lowered, every other character is
  left as it is. The codes 65 to 90 have bit 5 clear, so adding 32 is setting that bit.
\<close>

definition lower_char :: "char \<Rightarrow> char" where
  "lower_char ch =
     (let n = (of_char ch :: nat) in
      if 65 \<le> n \<and> n \<le> 90
      then (case ch of Char b0 b1 b2 b3 b4 b5 b6 b7 \<Rightarrow> Char b0 b1 b2 b3 b4 True b6 b7)
      else ch)"

definition lower :: "string \<Rightarrow> string" where
  "lower s = map lower_char s"

text \<open>\<open>keyword in text\<close>: the keyword occurs as a contiguous substring.\<close>

fun starts_with :: "string \<Rightarrow> string \<Rightarrow> bool" where
  "starts_with [] s = True"
| "starts_with (k # ks) [] = False"
| "starts_with (k # ks) (c # cs) = (k = c \<and> starts_with ks cs)"

fun py_in :: "string \<Rightarrow> string \<Rightarrow> bool" where
  "py_in k [] = (k = [])"
| "py_in k (c # cs) = (starts_with k (c # cs) \<or> py_in k cs)"

subsection \<open>ParserAgent\<close>

record EmailPayload =
  from_email :: string
  name :: string
  subject :: string
  email_content :: string

text \<open>The dictionary returned by \<open>parse_email\<close>; after a model answer its values are whatever the JSON held.\<close>

record intent_info =
  intent :: pyval
  confidence :: pyval
  key_requests :: pyval
  urgency :: pyval
  parsed_successfully :: bool

text \<open>\<open>self.intent_keywords\<close> of \<open>ParserAgent\<close>, in the order of the dictionary.\<close>

definition intent_keywords :: "(string \<times> string list) list" where
  "intent_keywords =
     [(''sales'', [''demo'', ''pricing'', ''buy'', ''purchase'', ''cost'', ''price'',
                   ''interested'', ''product'']),
      (''support'', [''help'', ''issue'', ''problem'', ''bug'', ''error'', ''not working'',
                     ''support'']),
      (''partnership'', [''partnership'', ''collaborate'', ''partner'', ''business'', ''deal'']),
      (''general'', [''hello'', ''hi'', ''information'', ''question'', ''inquiry''])]"

text \<open>
  The loop of \<open>_fallback_intent_parsing\<close>: the first category, in dictionary order, one of
  whose keywords occurs in the text.
\<close>

fun first_matching_intent :: "(string \<times> string list) list \<Rightarrow> string \<Rightarrow> string option" where
  "first_matching_intent [] content_lower = None"
| "first_matching_intent ((category, keywords) # rest) content_lower =
     (if \<exists>keyword \<in> set keywords. py_in keyword content_lower then Some category
      else first_matching_intent rest content_lower)"

definition fallback_intent_parsing :: "EmailPayload \<Rightarrow> intent_info" where
  "fallback_intent_parsing p =
     (let content_lower = lower (subject p @ '' '' @ email_content p) in
      case first_matching_intent intent_keywords content_lower of
        Some i \<Rightarrow>
          \<lparr> intent = PyStr i, confidence = PyFloat (6 / 10), key_requests = PyList [],
            urgency = PyStr ''medium'', parsed_successfully = True \<rparr>
      | None \<Rightarrow>
          \<lparr> intent = PyStr ''general'', confidence = PyFloat (3 / 10), key_requests = PyList [],
            urgency = PyStr ''low'', parsed_successfully = True \<rparr>)"

text \<open>The prompt of \<open>parse_email\<close>, an f-string over the payload.\<close>

definition intent_prompt :: "EmailPayload \<Rightarrow> string" where
  "intent_prompt p =
     [CHR 0x0A] @ ''            Analyze this email and determine the primary intent:'' @
     [CHR 0x0A] @ ''            '' @ [CHR 0x0A] @ ''            From: '' @ name p @ '' ('' @
     from_email p @ '')'' @ [CHR 0x0A] @ ''            Subject: '' @ subject p @ [CHR 0x0A] @
     ''            Content: '' @ email_content p @ [CHR 0x0A] @ ''            '' @ [CHR 0x0A] @
     ''            Classify the intent as one of: sales, support, partnership, '' @
     ''general'' @ [CHR 0x0A] @
     ''            Also extract any specific requests or key information.'' @ [CHR 0x0A] @
     ''            '' @ [CHR 0x0A] @ ''            Return JSON format:'' @ [CHR 0x0A] @
     ''            {'' @ [CHR 0x0A] @ ''                '' @ [CHR 0x22] @ ''intent'' @
     [CHR 0x22] @ '': '' @ [CHR 0x22] @ ''sales|support|partnership|general'' @ [CHR 0x22] @
     '','' @ [CHR 0x0A] @ ''                '' @ [CHR 0x22] @ ''confidence'' @ [CHR 0x22] @
     '': 0.0-1.0,'' @ [CHR 0x0A] @ ''                '' @ [CHR 0x22] @ ''key_requests'' @
     [CHR 0x22] @ '': ['' @ [CHR 0x22] @ ''list of specific requests'' @ [CHR 0x22] @ ''],'' @
     [CHR 0x0A] @ ''                '' @ [CHR 0x22] @ ''urgency'' @ [CHR 0x22] @ '': '' @
     [CHR 0x22] @ ''low|medium|high'' @ [CHR 0x22, CHR 0x0A] @ ''            }'' @ [CHR 0x0A] @
     ''            ''"

text \<open>\<open>d.get(key, default)\<close> on a dictionary.\<close>

definition dict_get :: "(string \<times> pyval) list \<Rightarrow> string \<Rightarrow> pyval \<Rightarrow> pyval" where
  "dict_get d k dflt = (case map_of d k of Some v \<Rightarrow> v | None \<Rightarrow> dflt)"

text \<open>
  \<open>ParserAgent.parse_email\<close>. \<open>json_loads\<close> is the JSON parser, a parameter: it returns a
  value or raises. A \<open>JSONDecodeError\<close> is caught by the inner handler, anything else
  (another exception, or \<open>.get\<close> on a parsed value that is not a dictionary) by the outer
  one; all of them lead to the keyword fallback, as does a failed generation.
\<close>

definition parse_email ::
  "LLMManager \<Rightarrow> (ChatModel \<Rightarrow> message list \<Rightarrow> exn + string) \<Rightarrow> (string \<Rightarrow> exn + pyval)
     \<Rightarrow> EmailPayload \<Rightarrow> intent_info" where
  "parse_email m ainvoke json_loads p =
     (let result = fst (generate_text m ainvoke (intent_prompt p)
                     (Some ''You are an expert email parser. Extract intent and key information accurately.'')
                     None)
      in if success result
         then (case json_loads (response result) of
                 Inr (PyDict d) \<Rightarrow>
                   \<lparr> intent = dict_get d ''intent'' (PyStr ''general''),
                     confidence = dict_get d ''confidence'' (PyFloat (5 / 10)),
                     key_requests = dict_get d ''key_requests'' (PyList []),
                     urgency = dict_get d ''urgency'' (PyStr ''low''),
                     parsed_successfully = True \<rparr>
               | Inr other \<Rightarrow> fallback_intent_parsing p
               | Inl e \<Rightarrow> fallback_intent_parsing p)
         else fallback_intent_parsing p)"

subsection \<open>ValidationAgent.determine\_intent\<close>

definition validation_intent_keywords :: "(string \<times> string list) list" where
  "validation_intent_keywords =
     [(''sales'', [''demo'', ''pricing'', ''buy'', ''purchase'', ''cost'', ''price'',
                   ''interested'', ''product'', ''quote'']),
      (''support'', [''help'', ''issue'', ''problem'', ''bug'', ''error'', ''not working'',
                     ''support'', ''assistance'']),
      (''partnership'', [''partnership'', ''collaborate'', ''partner'', ''business'', ''deal'',
                         ''collaboration'']),
      (''general'', [''hello'', ''hi'', ''information'', ''question'', ''inquiry'', ''contact''])]"

text \<open>\<open>sum(1 for keyword in keywords if keyword in content_lower)\<close>.\<close>

definition keyword_score :: "string list \<Rightarrow> string \<Rightarrow> nat" where
  "keyword_score keywords content_lower = length (filter (\<lambda>keyword. py_in keyword content_lower) keywords)"

text \<open>\<open>max(iterable, key=f)\<close> keeps the first element whose key is largest.\<close>

fun max_by :: "('a \<Rightarrow> nat) \<Rightarrow> 'a \<Rightarrow> 'a list \<Rightarrow> 'a" where
  "max_by f best [] = best"
| "max_by f best (x # xs) = max_by f (if f best < f x then x else best) xs"

definition intent_scores :: "(string \<times> string list) list \<Rightarrow> string \<Rightarrow> (string \<times> nat) list" where
  "intent_scores table content_lower = map (\<lambda>(i, keywords). (i, keyword_score keywords content_lower)) table"

definition best_intent :: "(string \<times> nat) list \<Rightarrow> string" where
  "best_intent scores =
     (case scores of
        [] \<Rightarrow> ''general''
      | p # ps \<Rightarrow> (let best = max_by snd p ps in if snd best > 0 then fst best else ''general''))"

definition determine_intent :: "string \<Rightarrow> string \<Rightarrow> string" where
  "determine_intent content subj =
     best_intent (intent_scores validation_intent_keywords (lower (subj @ '' '' @ content)))"

text \<open>The vocabulary of the statements: the keywords of a category and how many of them occur.\<close>

definition keywords_of :: "(string \<times> string list) list \<Rightarrow> string \<Rightarrow> string list" where
  "keywords_of table category = (case map_of table category of Some ks \<Rightarrow> ks | None \<Rightarrow> [])"

definition hits :: "(string \<times> string list) list \<Rightarrow> string \<Rightarrow> string \<Rightarrow> nat" where
  "hits table category content_lower = keyword_score (keywords_of table category) content_lower"

text \<open>Payloads and a JSON parser on which the statements are evaluated.\<close>

definition mixed_payload :: EmailPayload where
  "mixed_payload =
     \<lparr> from_email = ''bob@example.com'', name = ''Bob'', subject = ''Pricing'',
       email_content = ''I need help with an issue'' \<rparr>"

definition no_json :: "string \<Rightarrow> exn + pyval" where
  "no_json s = Inl (JSONDecodeError ''Expecting value'')"

section \<open>Sender name by regular expressions (utils/email\_parser.py)\<close>

subsection \<open>The fragment of \<open>re\<close> that the patterns use\<close>

text \<open>
  The four patterns are sequences of single characters and character classes, each taken
  once, with \<open>*\<close> or with \<open>+\<close>, one capturing group and the anchor \<open>^\<close>. They are searched
  with \<open>re.IGNORECASE | re.MULTILINE\<close>: a literal letter matches in either case, and \<open>^\<close>
  matches at the start of the text and after every line feed. None of the negated classes
  contains a letter. The text searched is ASCII: there a pattern letter matches its two
  cases and nothing else, and \<open>\s\<close> is the whitespace of \<open>py_isspace\<close>.
\<close>

datatype char_class = Lit char | Space | NotIn "char list"

fun class_matches :: "char_class \<Rightarrow> char \<Rightarrow> bool" where
  "class_matches (Lit c) x = (lower_char x = lower_char c)"
| "class_matches Space x = py_isspace x"
| "class_matches (NotIn cs) x = (x \<notin> set cs)"

datatype item = One char_class | Star char_class | Plus char_class | GroupOpen | GroupClose | Bol

text \<open>The state of group 1: not yet opened, open with the characters consumed so far (latest first), or closed.\<close>

datatype capture = Before | Inside string | After string

fun push :: "capture \<Rightarrow> char \<Rightarrow> capture" where
  "push (Inside acc) x = Inside (x # acc)"
| "push cap x = cap"

text \<open>
  Matching at one position, by backtracking in the order of the \<open>re\<close> module: a greedy
  quantifier first tries to consume one more character and gives it back only if the rest
  of the pattern then fails. \<open>prev\<close> is the character before the position. The result is
  the text of group 1 of the first way to match, \<open>None\<close> if there is none.
\<close>

fun re_match :: "item list \<Rightarrow> char option \<Rightarrow> string \<Rightarrow> capture \<Rightarrow> string option" where
  "re_match [] prev s cap = (case cap of After g \<Rightarrow> Some g | Inside acc \<Rightarrow> Some (rev acc) | Before \<Rightarrow> Some [])"
| "re_match (GroupOpen # r) prev s cap = re_match r prev s (Inside [])"
| "re_match (GroupClose # r) prev s cap =
     re_match r prev s (case cap of Inside acc \<Rightarrow> After (rev acc) | other \<Rightarrow> other)"
| "re_match (Bol # r) prev s cap =
     (if prev = None \<or> prev = Some (CHR 0x0A) then re_match r prev s cap else None)"
| "re_match (One c # r) prev [] cap = None"
| "re_match (One c # r) prev (x # xs) cap =
     (if class_matches c x then re_match r (Some x) xs (push cap x) else None)"
| "re_match (Plus c # r) prev [] cap = None"
| "re_match (Plus c # r) prev (x # xs) cap =
     (if class_matches c x then re_match (Star c # r) (Some x) xs (push cap x) else None)"
| "re_match (Star c # r) prev [] cap = re_match r prev [] cap"
| "re_match (Star c # r) prev (x # xs) cap =
     (if class_matches c x
      then (case re_match (Star c # r) (Some x) xs (push cap x) of
              Some g \<Rightarrow> Some g
            | None \<Rightarrow> re_match r prev (x # xs) cap)
      else re_match r prev (x # xs) cap)"

text \<open>\<open>re.search\<close>: the leftmost position at which the pattern matches.\<close>

fun re_search_from :: "item list \<Rightarrow> char option \<Rightarrow> string \<Rightarrow> string option" where
  "re_search_from p prev [] = re_match p prev [] Before"
| "re_search_from p prev (x # xs) =
     (case re_match p prev (x # xs) Before of
        Some g \<Rightarrow> Some g
      | None \<Rightarrow> re_search_from p (Some x) xs)"

definition re_search :: "item list \<Rightarrow> string \<Rightarrow> string option" where
  "re_search p s = re_search_from p None s"

text \<open>\<open>re.sub(r'["\']', '', name)\<close> and \<open>re.sub(r'\s+', ' ', name)\<close>.\<close>

definition remove_quotes :: "string \<Rightarrow> string" where
  "remove_quotes s = filter (\<lambda>c. c \<noteq> CHR 0x22 \<and> c \<noteq> CHR 0x27) s"

function normalize_whitespace :: "string \<Rightarrow> string" where
  "normalize_whitespace [] = []"
| "normalize_whitespace (c # cs) =
     (if py_isspace c then CHR '' '' # normalize_whitespace (dropWhile py_isspace cs)
      else c # normalize_whitespace cs)"
  by pat_completeness auto
termination
  by (relation "measure length") (auto intro: le_imp_less_Suc length_dropWhile_le)

subsection \<open>EmailParser.extract\_sender\_name\_fallback\<close>

definition lits :: "string \<Rightarrow> item list" where
  "lits s = map (\<lambda>c. One (Lit c)) s"

text \<open>
  The list \<open>patterns\<close>: \<open>From:\s*([^<\n]+)\<close>, \<open>Sender:\s*([^<\n]+)\<close>,
  \<open>^([^<\n]+)\s*<[^>]+>\<close> and \<open>^([^@\n]+)@\<close>.
\<close>

definition patterns :: "item list list" where
  "patterns =
     [lits ''From:'' @ [Star Space, GroupOpen, Plus (NotIn [CHR ''<'', CHR 0x0A]), GroupClose],
      lits ''Sender:'' @ [Star Space, GroupOpen, Plus (NotIn [CHR ''<'', CHR 0x0A]), GroupClose],
      [Bol, GroupOpen, Plus (NotIn [CHR ''<'', CHR 0x0A]), GroupClose, Star Space,
       One (Lit (CHR ''<'')), Plus (NotIn [CHR ''>'']), One (Lit (CHR ''>''))],
      [Bol, GroupOpen, Plus (NotIn [CHR ''@'', CHR 0x0A]), GroupClose, One (Lit (CHR ''@''))]]"

text \<open>
  The loop over the patterns: the first pattern that matches and whose cleaned group has
  more than one character gives the name; a match that cleans to less moves on to the next
  pattern. On ASCII text \<open>len(name)\<close> is the length of the list.
\<close>

fun try_patterns :: "item list list \<Rightarrow> string \<Rightarrow> string option" where
  "try_patterns [] email_text = None"
| "try_patterns (pattern # rest) email_text =
     (case re_search pattern email_text of
        None \<Rightarrow> try_patterns rest email_text
      | Some g \<Rightarrow>
          (let cleaned = normalize_whitespace (remove_quotes (strip g))
           in if cleaned \<noteq> [] \<and> length cleaned > 1 then Some cleaned
              else try_patterns rest email_text))"

definition extract_sender_name_fallback :: "string \<Rightarrow> string option" where
  "extract_sender_name_fallback email_text = try_patterns patterns email_text"

section \<open>Batch processing (agents/ai\_provider\_manager.py, web\_server.py)\<close>

text \<open>
  An email of a batch is a dictionary, hence a \<open>pyval\<close>. \<open>email.get(key, default)\<close> raises
  \<open>AttributeError\<close> on a value that is not a dictionary.
\<close>

definition py_get :: "pyval \<Rightarrow> string \<Rightarrow> pyval \<Rightarrow> exn + pyval" where
  "py_get v k dflt =
     (case v of
        PyDict d \<Rightarrow> Inr (dict_get d k dflt)
      | other \<Rightarrow> Inl (AttributeError (''object has no attribute 'get'' @ [CHR 0x27])))"

text \<open>\<open>x or y\<close>.\<close>

definition py_or :: "pyval \<Rightarrow> pyval \<Rightarrow> pyval" where
  "py_or x y = (if truthy x then x else y)"

subsection \<open>AIProviderManager\<close>

text \<open>
  \<open>process_single_email\<close>. Its two awaited calls, \<open>self.extract_sender_name\<close> and
  \<open>self.generate_reply\<close>, go through \<open>generate_response\<close>, which rests on names the module
  neither defines nor imports; they are parameters here, each either raising or returning
  (a name or \<open>None\<close>; a reply). \<open>provider\<close> is \<open>provider.value\<close>.
\<close>

definition process_single_email ::
  "(pyval \<Rightarrow> exn + pyval) \<Rightarrow> (pyval \<Rightarrow> pyval \<Rightarrow> exn + pyval) \<Rightarrow> string \<Rightarrow> pyval \<Rightarrow> pyval" where
  "process_single_email extract_name generate_reply provider email =
     (let body =
        (case py_get email ''content'' (PyStr '''') of
           Inl e \<Rightarrow> Inl e
         | Inr content \<Rightarrow>
            (case extract_name content of
               Inl e \<Rightarrow> Inl e
             | Inr sender_name \<Rightarrow>
                (case generate_reply (py_or sender_name (PyStr ''there'')) content of
                   Inl e \<Rightarrow> Inl e
                 | Inr reply \<Rightarrow>
                     Inr (PyDict [(''sender_name'', sender_name), (''reply'', reply),
                                  (''provider'', PyStr provider), (''success'', PyBool True)]))))
      in case body of
           Inr r \<Rightarrow> r
         | Inl e \<Rightarrow> PyDict [(''error'', PyStr (str_exn e)), (''provider'', PyStr provider),
                             (''success'', PyBool False)])"

text \<open>
  \<open>asyncio.gather(*tasks, return_exceptions=True)\<close>: the outcomes of the coroutines, in the
  order of the tasks, an exception standing in the place of the result of the task that
  raised it. \<open>task i email\<close> is the outcome of the coroutine created for the email at index
  \<open>i\<close>; how the coroutines interleave is inside this parameter.
\<close>

definition gather_return_exceptions ::
  "(nat \<Rightarrow> pyval \<Rightarrow> exn + pyval) \<Rightarrow> pyval list \<Rightarrow> (exn + pyval) list" where
  "gather_return_exceptions task emails = map (\<lambda>(i, email). task i email) (enumerate 0 emails)"

text \<open>The entry that stands for a task that raised.\<close>

definition error_marker :: "exn \<Rightarrow> pyval \<Rightarrow> pyval" where
  "error_marker e email = PyDict [(''error'', PyStr (str_exn e)), (''email'', email)]"

definition AIProviderManager_batch_process_emails ::
  "(nat \<Rightarrow> pyval \<Rightarrow> exn + pyval) \<Rightarrow> pyval list \<Rightarrow> pyval list" where
  "AIProviderManager_batch_process_emails task emails =
     map (\<lambda>(i, result). case result of
                           Inl e \<Rightarrow> error_marker e (emails ! i)
                         | Inr r \<Rightarrow> r)
       (enumerate 0 (gather_return_exceptions task emails))"

subsection \<open>The endpoint /api/batch/process\<close>

text \<open>
  The body of the loop for the email at index \<open>i\<close>. The two calls into the LLM manager are
  parameters, indexed by \<open>i\<close> since a provider may answer each call differently: each
  raises or returns.
\<close>

definition batch_entry ::
  "(nat \<Rightarrow> pyval \<Rightarrow> exn + pyval) \<Rightarrow> (nat \<Rightarrow> pyval \<Rightarrow> pyval \<Rightarrow> exn + pyval) \<Rightarrow> nat \<Rightarrow> pyval
     \<Rightarrow> exn + pyval" where
  "batch_entry extract_name generate_reply i email =
     (case py_get email ''content'' (PyStr '''') of
        Inl e \<Rightarrow> Inl e
      | Inr content \<Rightarrow>
         (case py_get email ''sender_name'' PyNone of
            Inl e \<Rightarrow> Inl e
          | Inr given \<Rightarrow>
             (case (if \<not> truthy given then extract_name i content else Inr given) of
                Inl e \<Rightarrow> Inl e
              | Inr sender_name \<Rightarrow>
                 (case generate_reply i (py_or sender_name (PyStr ''there'')) content of
                    Inl e \<Rightarrow> Inl e
                  | Inr reply \<Rightarrow>
                      Inr (PyDict [(''index'', PyInt (int i)), (''success'', PyBool True),
                                   (''sender_name'', sender_name), (''reply'', reply)])))))"

definition failed_entry :: "nat \<Rightarrow> exn \<Rightarrow> pyval" where
  "failed_entry i e =
     PyDict [(''index'', PyInt (int i)), (''success'', PyBool False), (''error'', PyStr (str_exn e))]"

definition batch_result ::
  "(nat \<Rightarrow> pyval \<Rightarrow> exn + pyval) \<Rightarrow> (nat \<Rightarrow> pyval \<Rightarrow> pyval \<Rightarrow> exn + pyval) \<Rightarrow> nat \<Rightarrow> pyval
     \<Rightarrow> pyval" where
  "batch_result extract_name generate_reply i email =
     (case batch_entry extract_name generate_reply i email of
        Inr r \<Rightarrow> r
      | Inl e \<Rightarrow> failed_entry i e)"

text \<open>The loop \<open>for i, email in enumerate(emails)\<close>, appending one entry per email.\<close>

fun batch_loop ::
  "(nat \<Rightarrow> pyval \<Rightarrow> exn + pyval) \<Rightarrow> (nat \<Rightarrow> pyval \<Rightarrow> pyval \<Rightarrow> exn + pyval) \<Rightarrow> nat \<Rightarrow> pyval list
     \<Rightarrow> pyval list" where
  "batch_loop extract_name generate_reply i [] = []"
| "batch_loop extract_name generate_reply i (email # rest) =
     batch_result extract_name generate_reply i email
       # batch_loop extract_name generate_reply (Suc i) rest"

definition entry_success :: "pyval \<Rightarrow> bool" where
  "entry_success r = (case r of PyDict d \<Rightarrow> map_of d ''success'' = Some (PyBool True) | other \<Rightarrow> False)"

datatype http_error = HTTPException nat string

text \<open>
  The object \<open>file_logger\<close> is a \<open>FileLogger\<close> of services/file\_logger.py. These are its
  attributes: the three that \<open>__init__\<close> sets and the methods of the class. Looking up any
  other name on it raises \<open>AttributeError\<close>.
\<close>

definition FileLogger_attributes :: "string list" where
  "FileLogger_attributes =
     [''data_dir'', ''senders_file'', ''logs_file'', ''__init__'', ''_ensure_data_directory'',
      ''_initialize_csv_file'', ''log_email_data'', ''log_message'', ''get_processed_emails'',
      ''get_logs'']"

definition FileLogger_getattr :: "string \<Rightarrow> exn + string" where
  "FileLogger_getattr attr =
     (if attr \<in> set FileLogger_attributes then Inr attr
      else Inl (AttributeError ([CHR 0x27] @ ''FileLogger'' @ [CHR 0x27] @
                  '' object has no attribute '' @ [CHR 0x27] @ attr @ [CHR 0x27])))"

text \<open>
  The endpoint. After the loop comes the statement \<open>file_logger.log_request({...})\<close>, then
  the \<open>return\<close> of the results. The statement first looks the attribute up on the object;
  a lookup that fails raises before the argument is built or anything is called. In the
  branch where the lookup succeeds the call is taken to return. Whatever escapes the outer
  \<open>try\<close> becomes \<open>HTTPException(500)\<close> with the message of the exception.
\<close>

definition web_batch_process_emails ::
  "(nat \<Rightarrow> pyval \<Rightarrow> exn + pyval) \<Rightarrow> (nat \<Rightarrow> pyval \<Rightarrow> pyval \<Rightarrow> exn + pyval)
     \<Rightarrow> pyval list \<Rightarrow> http_error + pyval" where
  "web_batch_process_emails extract_name generate_reply emails =
     (let results = batch_loop extract_name generate_reply 0 emails;
          successful = int (length (filter entry_success results))
      in case FileLogger_getattr ''log_request'' of
           Inl e \<Rightarrow> Inl (HTTPException 500 (str_exn e))
         | Inr method \<Rightarrow>
             Inr (PyDict [(''success'', PyBool True), (''results'', PyList results),
                          (''total_processed'', PyInt (int (length results))),
                          (''successful'', PyInt successful)]))"

text \<open>
  A batch of five emails and collaborators to run them: in the manager the task of index 2
  raises, in the endpoint the name extraction of index 2 raises.
\<close>

definition five_emails :: "pyval list" where
  "five_emails =
     [PyDict [(''content'', PyStr ''one'')],
      PyDict [(''content'', PyStr ''two''), (''sender_name'', PyStr ''Bob'')],
      PyDict [(''content'', PyStr ''three'')],
      PyDict [(''content'', PyStr ''four'')],
      PyDict []]"

definition extract_third_raises :: "nat \<Rightarrow> pyval \<Rightarrow> exn + pyval" where
  "extract_third_raises i content = (if i = 2 then Inl (Exception ''boom'') else Inr (PyStr ''Jane''))"

definition reply_thanks :: "nat \<Rightarrow> pyval \<Rightarrow> pyval \<Rightarrow> exn + pyval" where
  "reply_thanks i sender_name content = Inr (PyStr ''Thanks'')"

definition third_task_raises :: "nat \<Rightarrow> pyval \<Rightarrow> exn + pyval" where
  "third_task_raises i email =
     (if i = 2 then Inl (Exception ''boom'') else Inr (PyDict [(''success'', PyBool True)]))"

section \<open>The email agent (AI\_AGENTS/agents/email\_agent.py, utils/prompt\_builder.py)\<close>

subsection \<open>Requests, responses, templates\<close>

record EmailRequest =
  req_from_email :: string
  req_name :: string
  req_subject :: string
  req_content :: string
  req_intent :: "string option"

text \<open>
  \<open>EmailResponse\<close>. The dataclass stores what it is given: after a model answer the
  subject, body and intent are whatever values the parsed JSON held.
\<close>

record EmailResponse =
  resp_subject :: pyval
  resp_body :: pyval
  resp_intent :: pyval
  customer_type :: string
  is_new_lead :: bool
  sent :: pyval
  message_id :: pyval

definition company_name :: string where
  "company_name = ''Thryvix AI''"

text \<open>\<open>email_request.intent or 'general'\<close>.\<close>

definition intent_or_general :: "EmailRequest \<Rightarrow> string" where
  "intent_or_general r = (case req_intent r of None \<Rightarrow> ''general'' | Some i \<Rightarrow> if i \<noteq> [] then i else ''general'')"

definition new_customer_subject :: string where
  "new_customer_subject =
     ''Welcome to '' @ company_name @ '' '' @ [CHR 0xE2, CHR 0x80, CHR 0x93] @
     '' You Are Very Important to Us!''"

definition new_customer_body :: "EmailRequest \<Rightarrow> string" where
  "new_customer_body r =
     ''Hi '' @ req_name r @ '','' @ [CHR 0x0A, CHR 0x0A] @
     ''We are absolutely thrilled by your interest in '' @ company_name @
     ''! You are very important to us, and we want to make sure your experience with '' @
     ''our products is exceptional.'' @ [CHR 0x0A, CHR 0x0A] @
     ''Our team is excited to work with you and will reach out shortly to provide '' @
     ''you with a personalized introduction to our services. We're committed to '' @
     ''making you feel valued and ensuring your success.'' @ [CHR 0x0A, CHR 0x0A] @
     ''Thank you for choosing '' @ company_name @ ''!'' @ [CHR 0x0A, CHR 0x0A] @
     ''Warm regards,'' @ [CHR 0x0A] @ ''The '' @ company_name @ '' Team''"

definition existing_customer_subject :: "EmailRequest \<Rightarrow> string" where
  "existing_customer_subject r =
     ''Re: '' @ req_subject r"

definition existing_customer_body :: "EmailRequest \<Rightarrow> string" where
  "existing_customer_body r =
     ''Hi '' @ req_name r @ '','' @ [CHR 0x0A, CHR 0x0A] @ ''Thank you for reaching out to '' @
     company_name @ ''. We've received your message and appreciate your continued business.'' @
     [CHR 0x0A, CHR 0x0A] @
     ''Our team will review your request and get back to you within 24 hours with a '' @
     ''detailed response.'' @ [CHR 0x0A, CHR 0x0A] @
     ''If you have any urgent questions, please don't hesitate to contact us '' @
     ''directly.'' @ [CHR 0x0A, CHR 0x0A] @ ''Best regards,'' @ [CHR 0x0A] @ ''The '' @
     company_name @ '' Team''"

text \<open>
  \<open>generate_fallback_email\<close>: the two hand-written emails. Formatting strings into the
  templates cannot raise, so the third, generic dictionary of its handler is never built.
\<close>

definition generate_fallback_email :: "EmailRequest \<Rightarrow> bool \<Rightarrow> pyval" where
  "generate_fallback_email r is_new_customer =
     (if is_new_customer
      then PyDict
        [(''subject'', PyStr new_customer_subject),
         (''body'', PyStr (new_customer_body r)),
         (''intent'', PyStr (intent_or_general r)),
         (''tone'', PyStr ''warm_personalized''),
         (''next_steps'', PyList [PyStr ''Personalized consultation'',
                                  PyStr ''Product demonstration'', PyStr ''Follow-up call'']),
         (''personalization_level'', PyStr ''high'')]
      else PyDict
        [(''subject'', PyStr (existing_customer_subject r)),
         (''body'', PyStr (existing_customer_body r)),
         (''intent'', PyStr (intent_or_general r)),
         (''tone'', PyStr ''professional''),
         (''next_steps'', PyList [PyStr ''Review request'', PyStr ''Prepare response'',
                                  PyStr ''Follow-up'']),
         (''personalization_level'', PyStr ''medium'')])"

definition build_new_customer_prompt :: "EmailRequest \<Rightarrow> string" where
  "build_new_customer_prompt r =
     [CHR 0x0A] @
     ''            Generate a WARM, PERSONALIZED email reply for a NEW CUSTOMER:'' @
     [CHR 0x0A] @ ''            '' @ [CHR 0x0A] @ ''            Customer Details:'' @
     [CHR 0x0A] @ ''            - Name: '' @ req_name r @ [CHR 0x0A] @
     ''            - Email: '' @ req_from_email r @ [CHR 0x0A] @ ''            - Subject: '' @
     req_subject r @ [CHR 0x0A] @ ''            - Intent: '' @ intent_or_general r @
     [CHR 0x0A] @ ''            - Original Message: '' @ req_content r @ [CHR 0x0A] @
     ''            '' @ [CHR 0x0A] @ ''            IMPORTANT REQUIREMENTS:'' @ [CHR 0x0A] @
     ''            1. This is a NEW CUSTOMER - make them feel VERY IMPORTANT and '' @
     ''SPECIAL'' @ [CHR 0x0A] @
     ''            2. Use warm, engaging language that makes them feel valued'' @ [CHR 0x0A] @
     ''            3. Include phrases like '' @ [CHR 0x22] @ ''You are very important to us'' @
     [CHR 0x22] @ '' and '' @ [CHR 0x22] @ ''We're thrilled by your interest'' @
     [CHR 0x22, CHR 0x0A] @ ''            4. Show excitement about their interest in '' @
     company_name @ [CHR 0x0A] @ ''            5. Offer personalized service and attention'' @
     [CHR 0x0A] @ ''            6. Make them feel like they're getting VIP treatment'' @
     [CHR 0x0A] @ ''            7. Use a welcoming, enthusiastic tone throughout'' @
     [CHR 0x0A] @ ''            '' @ [CHR 0x0A] @ ''            Generate a reply that:'' @
     [CHR 0x0A] @ ''            - Makes them feel important and valued'' @ [CHR 0x0A] @
     ''            - Uses warm, engaging language'' @ [CHR 0x0A] @
     ''            - Shows excitement about their interest'' @ [CHR 0x0A] @
     ''            - Offers personalized service'' @ [CHR 0x0A] @
     ''            - Includes special welcome message'' @ [CHR 0x0A] @
     ''            - Addresses their specific request appropriately'' @ [CHR 0x0A] @
     ''            '' @ [CHR 0x0A] @ ''            Return JSON format:'' @ [CHR 0x0A] @
     ''            {'' @ [CHR 0x0A] @ ''                '' @ [CHR 0x22] @ ''subject'' @
     [CHR 0x22] @ '': '' @ [CHR 0x22] @ ''Welcome to '' @ company_name @ '' '' @
     [CHR 0xE2, CHR 0x80, CHR 0x93] @ '' You Are Very Important to Us!'' @ [CHR 0x22] @ '','' @
     [CHR 0x0A] @ ''                '' @ [CHR 0x22] @ ''body'' @ [CHR 0x22] @ '': '' @
     [CHR 0x22] @ ''Warm, personalized reply making them feel special'' @ [CHR 0x22] @ '','' @
     [CHR 0x0A] @ ''                '' @ [CHR 0x22] @ ''intent'' @ [CHR 0x22] @ '': '' @
     [CHR 0x22] @ intent_or_general r @ [CHR 0x22] @ '','' @ [CHR 0x0A] @
     ''                '' @ [CHR 0x22] @ ''tone'' @ [CHR 0x22] @ '': '' @ [CHR 0x22] @
     ''warm_personalized'' @ [CHR 0x22] @ '','' @ [CHR 0x0A] @ ''                '' @
     [CHR 0x22] @ ''next_steps'' @ [CHR 0x22] @ '': ['' @ [CHR 0x22] @ ''list of next steps'' @
     [CHR 0x22] @ ''],'' @ [CHR 0x0A] @ ''                '' @ [CHR 0x22] @
     ''personalization_level'' @ [CHR 0x22] @ '': '' @ [CHR 0x22] @ ''high'' @
     [CHR 0x22, CHR 0x0A] @ ''            }'' @ [CHR 0x0A] @ ''            ''"

definition build_existing_customer_prompt :: "EmailRequest \<Rightarrow> string" where
  "build_existing_customer_prompt r =
     [CHR 0x0A] @
     ''            Generate a PROFESSIONAL email reply for an EXISTING CUSTOMER:'' @
     [CHR 0x0A] @ ''            '' @ [CHR 0x0A] @ ''            Customer Details:'' @
     [CHR 0x0A] @ ''            - Name: '' @ req_name r @ [CHR 0x0A] @
     ''            - Email: '' @ req_from_email r @ [CHR 0x0A] @ ''            - Subject: '' @
     req_subject r @ [CHR 0x0A] @ ''            - Intent: '' @ intent_or_general r @
     [CHR 0x0A] @ ''            - Original Message: '' @ req_content r @ [CHR 0x0A] @
     ''            '' @ [CHR 0x0A] @ ''            IMPORTANT REQUIREMENTS:'' @ [CHR 0x0A] @
     ''            1. This is an EXISTING CUSTOMER - provide professional, helpful '' @
     ''acknowledgment'' @ [CHR 0x0A] @
     ''            2. Use professional, courteous language'' @ [CHR 0x0A] @
     ''            3. Address their specific request directly'' @ [CHR 0x0A] @
     ''            4. Provide helpful information and next steps'' @ [CHR 0x0A] @
     ''            5. Maintain a professional but friendly tone'' @ [CHR 0x0A] @
     ''            6. Show appreciation for their continued business'' @ [CHR 0x0A] @
     ''            '' @ [CHR 0x0A] @ ''            Generate a reply that:'' @ [CHR 0x0A] @
     ''            - Acknowledges their request professionally'' @ [CHR 0x0A] @
     ''            - Is helpful and informative'' @ [CHR 0x0A] @
     ''            - Includes appropriate next steps'' @ [CHR 0x0A] @
     ''            - Matches the intent (sales, support, partnership, general)'' @ [CHR 0x0A] @
     ''            - Shows appreciation for their business'' @ [CHR 0x0A] @ ''            '' @
     [CHR 0x0A] @ ''            Return JSON format:'' @ [CHR 0x0A] @ ''            {'' @
     [CHR 0x0A] @ ''                '' @ [CHR 0x22] @ ''subject'' @ [CHR 0x22] @ '': '' @
     [CHR 0x22] @ ''Re: '' @ req_subject r @ [CHR 0x22] @ '','' @ [CHR 0x0A] @
     ''                '' @ [CHR 0x22] @ ''body'' @ [CHR 0x22] @ '': '' @ [CHR 0x22] @
     ''Professional acknowledgment reply'' @ [CHR 0x22] @ '','' @ [CHR 0x0A] @
     ''                '' @ [CHR 0x22] @ ''intent'' @ [CHR 0x22] @ '': '' @ [CHR 0x22] @
     intent_or_general r @ [CHR 0x22] @ '','' @ [CHR 0x0A] @ ''                '' @
     [CHR 0x22] @ ''tone'' @ [CHR 0x22] @ '': '' @ [CHR 0x22] @ ''professional'' @ [CHR 0x22] @
     '','' @ [CHR 0x0A] @ ''                '' @ [CHR 0x22] @ ''next_steps'' @ [CHR 0x22] @
     '': ['' @ [CHR 0x22] @ ''list of next steps'' @ [CHR 0x22] @ ''],'' @ [CHR 0x0A] @
     ''                '' @ [CHR 0x22] @ ''personalization_level'' @ [CHR 0x22] @ '': '' @
     [CHR 0x22] @ ''medium'' @ [CHR 0x22, CHR 0x0A] @ ''            }'' @ [CHR 0x0A] @
     ''            ''"

subsection \<open>The collaborators\<close>

text \<open>
  What \<open>process_email\<close> calls outside the modelled code, each call either raising or
  returning: the CRM lookup (a \<open>lead_info\<close> dictionary), the SMTP send (a result
  dictionary), the CRM insertion, the JSON parser; the registry with its providers; and
  the three clock readings of the cache (\<open>get\<close> twice, \<open>set\<close> once). Writing the outbox
  entry, \<open>_log_to_outbox\<close>, swallows every exception of its own and returns nothing; it has
  no part in the response and does not appear.
\<close>

record process_env =
  check_lead :: "string \<Rightarrow> exn + pyval"
  send_email :: "string \<Rightarrow> pyval \<Rightarrow> pyval \<Rightarrow> exn + pyval"
  add_new_lead :: "pyval \<Rightarrow> exn + unit"
  parse_json :: "string \<Rightarrow> exn + pyval"
  registry :: LLMManager
  invoke :: "ChatModel \<Rightarrow> message list \<Rightarrow> exn + string"
  t_get :: int
  t_access :: int
  t_set :: int

text \<open>\<open>d[key]\<close>: \<open>KeyError\<close> on a dictionary without the key, \<open>TypeError\<close> on anything else.\<close>

definition subscript :: "pyval \<Rightarrow> string \<Rightarrow> exn + pyval" where
  "subscript v k =
     (case v of
        PyDict d \<Rightarrow> (case map_of d k of Some x \<Rightarrow> Inr x | None \<Rightarrow> Inl (KeyError k))
      | PyStr s \<Rightarrow> Inl (TypeError ''string indices must be integers'')
      | PyList xs \<Rightarrow> Inl (TypeError ''list indices must be integers or slices, not str'')
      | other \<Rightarrow> Inl (TypeError ''object is not subscriptable''))"

subsection \<open>\_generate\_email\_content\<close>

definition cache_key :: "EmailRequest \<Rightarrow> bool \<Rightarrow> string" where
  "cache_key r new_lead =
     ''email_'' @ req_from_email r @ ''_'' @ (if new_lead then ''True'' else ''False'') @ ''_''
       @ (case req_intent r of None \<Rightarrow> ''None'' | Some i \<Rightarrow> i)"

text \<open>
  A truthy cached value is returned as it is. Otherwise the model is asked; its answer is
  parsed, cached for an hour and returned. A failed generation, a \<open>JSONDecodeError\<close> (inner
  handler) and any other exception (outer handler) all give the fallback email for the
  lead type.
\<close>

definition generate_email_content ::
  "process_env \<Rightarrow> EmailRequest \<Rightarrow> bool \<Rightarrow> CacheService \<Rightarrow> pyval \<times> CacheService" where
  "generate_email_content env r new_lead c =
     (case CacheService_get c (cache_key r new_lead) (t_get env) (t_access env) of
        (cached_result, c1) \<Rightarrow>
          if truthy cached_result then (cached_result, c1)
          else
            (let prompt = (if new_lead then build_new_customer_prompt r
                           else build_existing_customer_prompt r);
                 result = fst (generate_text (registry env) (invoke env) prompt
                   (Some ''You are a professional email assistant for Thryvix AI. Generate appropriate email responses.'')
                   None)
             in if success result
                then (case parse_json env (response result) of
                        Inr parsed \<Rightarrow>
                          (parsed,
                           snd (CacheService_set c1 (cache_key r new_lead) parsed
                                  (Some 3600) (t_set env)))
                      | Inl e \<Rightarrow> (generate_fallback_email r new_lead, c1))
                else (generate_fallback_email r new_lead, c1)))"

subsection \<open>process\_email\<close>

text \<open>
  The steps of the \<open>try\<close> block after the content is there, in the order in which Python
  evaluates them: the two subscripts for the send, the send, the CRM insertion for a new
  lead (which reads the intent), then the fields of the response.
\<close>

definition respond ::
  "process_env \<Rightarrow> EmailRequest \<Rightarrow> bool \<Rightarrow> pyval \<Rightarrow> exn + EmailResponse" where
  "respond env r new_lead validated_content =
     (case subscript validated_content ''subject'' of Inl e \<Rightarrow> Inl e | Inr subj \<Rightarrow>
      case subscript validated_content ''body'' of Inl e \<Rightarrow> Inl e | Inr body \<Rightarrow>
      case send_email env (req_from_email r) subj body of Inl e \<Rightarrow> Inl e | Inr send_result \<Rightarrow>
      case (if new_lead
            then (case subscript validated_content ''intent'' of
                    Inl e \<Rightarrow> Inl e
                  | Inr i \<Rightarrow>
                      add_new_lead env
                        (PyDict [(''name'', PyStr (req_name r)),
                                 (''email'', PyStr (req_from_email r)),
                                 (''intent'', i), (''status'', PyStr ''New Lead'')]))
            else Inr ()) of Inl e \<Rightarrow> Inl e | Inr u \<Rightarrow>
      case subscript validated_content ''intent'' of Inl e \<Rightarrow> Inl e | Inr i \<Rightarrow>
      case subscript send_result ''success'' of Inl e \<Rightarrow> Inl e | Inr ok \<Rightarrow>
      case py_get send_result ''message_id'' PyNone of Inl e \<Rightarrow> Inl e | Inr mid \<Rightarrow>
        Inr \<lparr> resp_subject = subj, resp_body = body, resp_intent = i,
              customer_type = (if new_lead then ''new_lead'' else ''existing_lead''),
              is_new_lead = new_lead, sent = ok, message_id = mid \<rparr>)"

text \<open>The \<open>try\<close> block: what it returns or raises, and the cache it leaves.\<close>

definition process_email_try ::
  "process_env \<Rightarrow> EmailRequest \<Rightarrow> CacheService \<Rightarrow> (exn + EmailResponse) \<times> CacheService" where
  "process_email_try env r c =
     (case check_lead env (req_from_email r) of
        Inl e \<Rightarrow> (Inl e, c)
      | Inr lead_info \<Rightarrow>
         (case py_get lead_info ''exists'' (PyBool False) of
            Inl e \<Rightarrow> (Inl e, c)
          | Inr ex \<Rightarrow>
             (let new_lead = (\<not> truthy ex) in
              case generate_email_content env r new_lead c of
                (content, c1) \<Rightarrow> (respond env r new_lead content, c1))))"

text \<open>
  The handler of \<open>process_email\<close>: the fallback email for a new customer, marked as sent.
  Its own subscripts could raise, in which case the exception would leave \<open>process_email\<close>.
\<close>

definition fallback_response :: "EmailRequest \<Rightarrow> exn + EmailResponse" where
  "fallback_response r =
     (let fallback_content = generate_fallback_email r True in
      case subscript fallback_content ''subject'' of Inl e \<Rightarrow> Inl e | Inr subj \<Rightarrow>
      case subscript fallback_content ''body'' of Inl e \<Rightarrow> Inl e | Inr body \<Rightarrow>
      case subscript fallback_content ''intent'' of Inl e \<Rightarrow> Inl e | Inr i \<Rightarrow>
        Inr \<lparr> resp_subject = subj, resp_body = body, resp_intent = i,
              customer_type = ''new_lead'', is_new_lead = True, sent = PyBool True,
              message_id = PyNone \<rparr>)"

definition process_email ::
  "process_env \<Rightarrow> EmailRequest \<Rightarrow> CacheService \<Rightarrow> (exn + EmailResponse) \<times> CacheService" where
  "process_email env r c =
     (case process_email_try env r c of
        (Inr resp, c1) \<Rightarrow> (Inr resp, c1)
      | (Inl e, c1) \<Rightarrow> (fallback_response r, c1))"

text \<open>A request and collaborators on which the statements are evaluated.\<close>

definition sample_request :: EmailRequest where
  "sample_request =
     \<lparr> req_from_email = ''ann@example.com'', req_name = ''Ann'', req_subject = ''Demo'',
       req_content = ''Could I see a demo?'', req_intent = None \<rparr>"

definition not_json_env :: process_env where
  "not_json_env =
     \<lparr> check_lead = (\<lambda>email. Inr (PyDict [(''exists'', PyBool True),
                                            (''lead_type'', PyStr ''existing_lead'')])),
       send_email = (\<lambda>recipient subj body.
          Inr (PyDict [(''success'', PyBool False), (''error'', PyStr ''connection refused''),
                       (''message_id'', PyNone)])),
       add_new_lead = (\<lambda>lead. Inr ()),
       parse_json = (\<lambda>s. Inl (JSONDecodeError ''Expecting value'')),
       registry = sample_manager,
       invoke = google_only,
       t_get = 1000, t_access = 1000, t_set = 2000 \<rparr>"

definition bare_string_env :: process_env where
  "bare_string_env =
     \<lparr> check_lead = (\<lambda>email. Inr (PyDict [(''exists'', PyBool False)])),
       send_email = (\<lambda>recipient subj body. Inr (PyDict [(''success'', PyBool True)])),
       add_new_lead = (\<lambda>lead. Inr ()),
       parse_json = (\<lambda>s. Inr (PyStr s)),
       registry = sample_manager,
       invoke = google_only,
       t_get = 1000, t_access = 1000, t_set = 2000 \<rparr>"

section \<open>Properties of the TTL cache\<close>

subsection \<open>Auxiliary facts\<close>

lemma min_by_mem: "min_by f b xs \<in> set (b # xs)"
  by (induction xs arbitrary: b) auto

lemma min_by_le: "x \<in> set (b # xs) \<Longrightarrow> f (min_by f b xs) \<le> f x"
proof (induction xs arbitrary: b x)
  case Nil
  then show ?case by simp
next
  case (Cons y ys)
  let ?b = "if f y < f b then y else b"
  have step: "f (min_by f ?b ys) \<le> f ?b"
    using Cons.IH [of ?b ?b] by simp
  from Cons.prems consider "x = b" | "x = y" | "x \<in> set ys" by auto
  then show ?case
  proof cases
    case 1
    with step show ?thesis by (auto split: if_splits)
  next
    case 2
    with step show ?thesis by (auto split: if_splits)
  next
    case 3
    then show ?thesis using Cons.IH [of x ?b] by simp
  qed
qed

lemma oldest_key_None: "oldest_key al = None \<longleftrightarrow> al = []"
  by (simp add: oldest_key_def split: list.splits)

lemma oldest_key_Some:
  assumes "oldest_key al = Some k"
  shows "\<exists>e. (k, e) \<in> set al \<and> (\<forall>(k', e') \<in> set al. last_accessed e \<le> last_accessed e')"
proof -
  from assms obtain p ps where al: "al = p # ps"
    and k: "k = fst (min_by (\<lambda>q. last_accessed (snd q)) p ps)"
    by (auto simp: oldest_key_def split: list.splits)
  let ?m = "min_by (\<lambda>q. last_accessed (snd q)) p ps"
  have "?m \<in> set al" using min_by_mem [of _ p ps] al by simp
  moreover have "\<forall>q \<in> set al. last_accessed (snd ?m) \<le> last_accessed (snd q)"
    using min_by_le [of _ p ps "\<lambda>q. last_accessed (snd q)"] al by simp
  ultimately show ?thesis using k by (intro exI [of _ "snd ?m"]) auto
qed

lemma length_delete_distinct:
  "distinct (map fst al) \<Longrightarrow> k \<in> fst ` set al \<Longrightarrow> Suc (length (AList.delete k al)) = length al"
proof (induction al)
  case Nil
  then show ?case by simp
next
  case (Cons p ps)
  show ?case
  proof (cases "fst p = k")
    case True
    with Cons.prems have "k \<notin> fst ` set ps" by auto
    with True show ?thesis by simp
  next
    case False
    with Cons show ?thesis by auto
  qed
qed

lemma length_update:
  "length (AList.update k v al) = (if k \<in> fst ` set al then length al else Suc (length al))"
  by (induction al) auto

lemma get_cache_cases:
  "cache (snd (CacheService_get c k now now')) = cache c
   \<or> cache (snd (CacheService_get c k now now')) = AList.delete k (cache c)
   \<or> (\<exists>e. k \<in> fst ` set (cache c) \<and>
         cache (snd (CacheService_get c k now now')) = AList.update k e (cache c))"
  by (auto simp: CacheService_get_def Let_def split: option.splits dest: map_of_SomeD
      intro: rev_image_eqI)

lemma get_max_size [simp]: "max_size (snd (CacheService_get c k now now')) = max_size c"
  by (simp add: CacheService_get_def Let_def split: option.splits)

lemma get_default_ttl [simp]: "default_ttl (snd (CacheService_get c k now now')) = default_ttl c"
  by (simp add: CacheService_get_def Let_def split: option.splits)

lemma get_bounded:
  assumes "cache_bounded c"
  shows "cache_bounded (snd (CacheService_get c k now now'))"
proof -
  let ?c' = "snd (CacheService_get c k now now')"
  from get_cache_cases [of c k now now']
  consider "cache ?c' = cache c" | "cache ?c' = AList.delete k (cache c)"
    | e where "k \<in> fst ` set (cache c)" "cache ?c' = AList.update k e (cache c)"
    by blast
  then show ?thesis
  proof cases
    case 1
    with assms show ?thesis by (simp add: cache_bounded_def cache_inv_def)
  next
    case 2
    have "length (AList.delete k (cache c)) \<le> length (cache c)"
      by (rule length_delete_le)
    with 2 assms show ?thesis
      by (simp add: cache_bounded_def cache_inv_def distinct_delete)
  next
    case 3
    with assms show ?thesis
      by (simp add: cache_bounded_def cache_inv_def distinct_update length_update)
  qed
qed

lemma evict_oldest_full:
  assumes "cache_inv c" and "cache c \<noteq> []"
  shows "\<exists>victim ev. oldest_key (cache c) = Some victim
           \<and> map_of (cache c) victim = Some ev
           \<and> (\<forall>k' e'. map_of (cache c) k' = Some e' \<longrightarrow> last_accessed ev \<le> last_accessed e')
           \<and> cache (evict_oldest c) = AList.delete victim (cache c)
           \<and> Suc (length (cache (evict_oldest c))) = length (cache c)"
proof -
  from assms(2) obtain victim where v: "oldest_key (cache c) = Some victim"
    using oldest_key_None [of "cache c"] by (cases "oldest_key (cache c)") auto
  from oldest_key_Some [OF v] obtain ev where
    ev: "(victim, ev) \<in> set (cache c)"
    and least: "\<forall>(k', e') \<in> set (cache c). last_accessed ev \<le> last_accessed e'"
    by blast
  from assms(1) ev have m: "map_of (cache c) victim = Some ev"
    by (simp add: cache_inv_def)
  have l: "\<forall>k' e'. map_of (cache c) k' = Some e' \<longrightarrow> last_accessed ev \<le> last_accessed e'"
    using least by (auto dest: map_of_SomeD)
  have c: "cache (evict_oldest c) = AList.delete victim (cache c)"
    using v by (simp add: evict_oldest_def)
  have "victim \<in> fst ` set (cache c)" using ev by (auto intro: rev_image_eqI)
  then have "Suc (length (AList.delete victim (cache c))) = length (cache c)"
    using assms(1) by (simp add: cache_inv_def length_delete_distinct)
  with v m l c show ?thesis by simp
qed

lemma evict_max_size [simp]: "max_size (evict_oldest c) = max_size c"
  by (simp add: evict_oldest_def split: option.splits)

lemma evict_inv: "cache_inv c \<Longrightarrow> cache_inv (evict_oldest c)"
  by (simp add: evict_oldest_def cache_inv_def distinct_delete split: option.splits)

lemma set_max_size [simp]: "max_size (snd (CacheService_set c k v ttl now)) = max_size c"
  by (simp add: CacheService_set_def Let_def split: sum.splits)

lemma set_bounded:
  assumes "cache_bounded c"
  shows "cache_bounded (snd (CacheService_set c k v ttl now))"
proof (cases "CacheEntry_init v (effective_ttl c ttl) now")
  case (Inl e)
  with assms show ?thesis by (simp add: CacheService_set_def)
next
  case (Inr entry)
  show ?thesis
  proof (cases "length (cache c) \<ge> max_size c")
    case True
    with assms have ne: "cache c \<noteq> []" and inv: "cache_inv c"
      by (auto simp: cache_bounded_def)
    from evict_oldest_full [OF inv ne]
    have len: "Suc (length (cache (evict_oldest c))) = length (cache c)" by blast
    have "length (AList.update k entry (cache (evict_oldest c))) \<le> Suc (length (cache (evict_oldest c)))"
      by (simp add: length_update)
    with len assms have "length (AList.update k entry (cache (evict_oldest c))) \<le> max_size c"
      by (simp add: cache_bounded_def)
    with Inr True assms evict_inv [OF inv] show ?thesis
      by (simp add: CacheService_set_def Let_def cache_bounded_def cache_inv_def distinct_update)
  next
    case False
    have "length (AList.update k entry (cache c)) \<le> Suc (length (cache c))"
      by (simp add: length_update)
    with False have "length (AList.update k entry (cache c)) \<le> max_size c" by simp
    with Inr False assms show ?thesis
      by (simp add: CacheService_set_def Let_def cache_bounded_def cache_inv_def distinct_update)
  qed
qed

lemma delete_bounded: "cache_bounded c \<Longrightarrow> cache_bounded (snd (CacheService_delete c k))"
  using length_delete_le [of k "cache c"]
  by (auto simp: CacheService_delete_def cache_bounded_def cache_inv_def distinct_delete)

lemma clear_bounded: "cache_bounded c \<Longrightarrow> cache_bounded (snd (CacheService_clear c))"
  by (simp add: CacheService_clear_def cache_bounded_def cache_inv_def)

lemma exists_bounded: "cache_bounded c \<Longrightarrow> cache_bounded (snd (CacheService_exists c k now))"
  using length_delete_le [of k "cache c"]
  by (auto simp: CacheService_exists_def cache_bounded_def cache_inv_def distinct_delete
      split: option.splits)

lemma cleanup_bounded:
  assumes "cache_bounded c"
  shows "cache_bounded (cleanup_expired_entries c now)"
proof -
  from assms have "length (cache c) \<le> max_size c"
    by (simp add: cache_bounded_def)
  then have "length (cache (cleanup_expired_entries c now)) \<le> max_size c"
    unfolding cleanup_expired_entries_def
    by (simp add: order_trans [OF length_filter_le])
  moreover have "cache_inv (cleanup_expired_entries c now)"
    using assms
    by (simp add: cleanup_expired_entries_def cache_bounded_def cache_inv_def distinct_map_filter)
  moreover have "max_size (cleanup_expired_entries c now) = max_size c"
    by (simp add: cleanup_expired_entries_def)
  ultimately show ?thesis
    using assms by (simp add: cache_bounded_def)
qed

lemma get_or_set_bounded:
  assumes "cache_bounded c"
  shows "cache_bounded (service (CacheService_get_or_set c k f ttl now now' now_set))"
proof -
  obtain v c1 where g: "CacheService_get c k now now' = (v, c1)" by (cases "CacheService_get c k now now'")
  with get_bounded [OF assms, of k now now'] have b1: "cache_bounded c1" by simp
  show ?thesis
    using g b1 set_bounded [OF b1]
    by (auto simp: CacheService_get_or_set_def split: sum.splits)
qed

lemma apply_op_bounded: "cache_bounded c \<Longrightarrow> cache_bounded (apply_op c op)"
  by (cases op)
    (simp_all add: get_bounded set_bounded delete_bounded clear_bounded exists_bounded
      cleanup_bounded get_or_set_bounded)

lemma get_or_set_max_size [simp]:
  "max_size (service (CacheService_get_or_set c k f ttl now now' now_set)) = max_size c"
proof -
  obtain v c1 where g: "CacheService_get c k now now' = (v, c1)"
    by (cases "CacheService_get c k now now'")
  then have "max_size c1 = max_size c"
    using get_max_size [of c k now now'] by simp
  with g show ?thesis
    by (simp add: CacheService_get_or_set_def split: sum.splits)
qed

lemma apply_op_max_size: "max_size (apply_op c op) = max_size c"
  by (cases op)
    (auto simp: CacheService_delete_def CacheService_clear_def CacheService_exists_def
      cleanup_expired_entries_def split: option.splits)

lemma run_ops_bounded: "cache_bounded c \<Longrightarrow> cache_bounded (run_ops c ops)"
  unfolding run_ops_def by (induction ops arbitrary: c) (simp_all add: apply_op_bounded)

lemma run_ops_max_size: "max_size (run_ops c ops) = max_size c"
  unfolding run_ops_def by (induction ops arbitrary: c) (simp_all add: apply_op_max_size)

lemma init_bounded: "cache_bounded CacheService_init"
  by (simp add: cache_bounded_def cache_inv_def CacheService_init_def)

lemma set_success_iff:
  "fst (CacheService_set c k v ttl now) \<longleftrightarrow> datetime_ok (now + timedelta_seconds (effective_ttl c ttl))"
  by (simp add: CacheService_set_def CacheEntry_init_def Let_def)

lemma set_stores:
  assumes "fst (CacheService_set c k v ttl now)"
  shows "map_of (cache (snd (CacheService_set c k v ttl now))) k =
           Some \<lparr> value = v, created_at = now,
                  expires_at = now + timedelta_seconds (effective_ttl c ttl),
                  access_count = 0, last_accessed = now \<rparr>"
  using assms
  by (simp add: CacheService_set_def CacheEntry_init_def Let_def update_conv' split: if_splits)

lemma set_failure_unchanged:
  "\<not> fst (CacheService_set c k v ttl now) \<Longrightarrow> snd (CacheService_set c k v ttl now) = c"
  by (simp add: CacheService_set_def CacheEntry_init_def Let_def split: if_splits)

lemma get_hit:
  assumes "map_of (cache c) k = Some e" and "now \<le> expires_at e"
  shows "fst (CacheService_get c k now now') = value e"
    and "map_of (cache (snd (CacheService_get c k now now'))) k =
           Some (e \<lparr> access_count := access_count e + 1, last_accessed := now' \<rparr>)"
  using assms by (simp_all add: CacheService_get_def is_expired_def access_def update_conv')

lemma get_expired:
  assumes "map_of (cache c) k = Some e" and "expires_at e < now"
  shows "fst (CacheService_get c k now now') = PyNone"
    and "k \<notin> fst ` set (cache (snd (CacheService_get c k now now')))"
  using assms by (simp_all add: CacheService_get_def is_expired_def delete_notin_dom)

lemma get_absent:
  assumes "map_of (cache c) k = None"
  shows "fst (CacheService_get c k now now') = PyNone"
    and "cache (snd (CacheService_get c k now now')) = cache c"
  using assms by (simp_all add: CacheService_get_def)

lemma keys_delete: "fst ` set (AList.delete k al) = fst ` set al - {k}"
  by (induction al) auto

lemma keys_update: "fst ` set (AList.update k v al) = insert k (fst ` set al)"
  by (simp add: dom_update)

lemma set_full_evicts:
  assumes b: "cache_bounded c" and full: "length (cache c) = max_size c"
    and ok: "fst (CacheService_set c k v ttl t)"
  shows "\<exists>victim ev. map_of (cache c) victim = Some ev
           \<and> (\<forall>k' e'. map_of (cache c) k' = Some e' \<longrightarrow> last_accessed ev \<le> last_accessed e')
           \<and> fst ` set (AList.delete victim (cache c)) = fst ` set (cache c) - {victim}
           \<and> Suc (length (AList.delete victim (cache c))) = max_size c
           \<and> cache (snd (CacheService_set c k v ttl t)) =
               AList.update k
                 \<lparr> value = v, created_at = t,
                   expires_at = t + timedelta_seconds (effective_ttl c ttl),
                   access_count = 0, last_accessed = t \<rparr>
                 (AList.delete victim (cache c))
           \<and> (k \<notin> fst ` set (cache c) \<longrightarrow>
                length (cache (snd (CacheService_set c k v ttl t))) = max_size c \<and>
                fst ` set (cache (snd (CacheService_set c k v ttl t))) =
                  insert k (fst ` set (cache c) - {victim}))"
proof -
  from b full have inv: "cache_inv c" and ne: "cache c \<noteq> []"
    by (auto simp: cache_bounded_def)
  from evict_oldest_full [OF inv ne] obtain victim ev where
    v: "oldest_key (cache c) = Some victim"
    and m: "map_of (cache c) victim = Some ev"
    and least: "\<forall>k' e'. map_of (cache c) k' = Some e' \<longrightarrow> last_accessed ev \<le> last_accessed e'"
    and ev: "cache (evict_oldest c) = AList.delete victim (cache c)"
    and len: "Suc (length (cache (evict_oldest c))) = length (cache c)"
    by blast
  let ?e = "\<lparr> value = v, created_at = t,
                   expires_at = t + timedelta_seconds (effective_ttl c ttl),
                   access_count = 0, last_accessed = t \<rparr>"
  let ?d = "AList.delete victim (cache c)"
  have res: "cache (snd (CacheService_set c k v ttl t)) = AList.update k ?e ?d"
    using ok full ev
    by (simp add: CacheService_set_def CacheEntry_init_def Let_def split: if_splits)
  have len': "Suc (length ?d) = max_size c" using len ev full by simp
  have new: "k \<notin> fst ` set (cache c) \<longrightarrow>
      length (AList.update k ?e ?d) = max_size c \<and>
      fst ` set (AList.update k ?e ?d) = insert k (fst ` set (cache c) - {victim})"
    using len' by (simp add: length_update keys_update keys_delete)
  from m least len' res new show ?thesis
    by (intro exI [of _ victim] exI [of _ ev]) (simp add: keys_delete)
qed

lemma get_miss:
  assumes "map_of (cache c) k = None \<or> (\<exists>e. map_of (cache c) k = Some e \<and> expires_at e < t)"
  shows "fst (CacheService_get c k t t') = PyNone"
    and "k \<notin> fst ` set (cache (snd (CacheService_get c k t t')))"
    and "default_ttl (snd (CacheService_get c k t t')) = default_ttl c"
proof -
  have "fst (CacheService_get c k t t') = PyNone
     \<and> k \<notin> fst ` set (cache (snd (CacheService_get c k t t')))
     \<and> default_ttl (snd (CacheService_get c k t t')) = default_ttl c"
  proof (cases "map_of (cache c) k")
    case None
    then have "k \<notin> fst ` set (cache c)" by (simp add: map_of_eq_None_iff)
    with None show ?thesis by (simp add: CacheService_get_def)
  next
    case (Some e)
    with assms have "expires_at e < t" by simp
    with Some show ?thesis
      by (simp add: CacheService_get_def is_expired_def delete_notin_dom)
  qed
  then show "fst (CacheService_get c k t t') = PyNone"
    and "k \<notin> fst ` set (cache (snd (CacheService_get c k t t')))"
    and "default_ttl (snd (CacheService_get c k t t')) = default_ttl c"
    by simp_all
qed

lemmas cache_defs =
  CacheService_set_def CacheService_get_def CacheService_init_def CacheEntry_init_def
  effective_ttl_def datetime_ok_def datetime_max_def timedelta_seconds_def is_expired_def
  access_def Let_def evict_oldest_def oldest_key_def

subsection \<open>Round trip and expiry\<close>

text \<open>
  Claim C3 as stated fails for a negative \<open>ttl\<close>: \<open>set\<close> succeeds, but the entry is created
  already expired, so the \<open>get\<close> that follows at the very same instant misses.
\<close>

theorem cache_roundtrip_negative_ttl_counterexample:
  "fst (CacheService_set CacheService_init ''k'' (PyStr ''v'') (Some (- 1)) 5000000) \<and>
   fst (CacheService_get
          (snd (CacheService_set CacheService_init ''k'' (PyStr ''v'') (Some (- 1)) 5000000))
          ''k'' 5000000 5000000) \<noteq> PyStr ''v''"
  by (simp add: CacheService_set_def CacheService_get_def CacheService_init_def
      CacheEntry_init_def effective_ttl_def datetime_ok_def datetime_max_def
      timedelta_seconds_def is_expired_def Let_def)

text \<open>
  Claim C3, amended. Whenever \<open>set(k, v, ttl)\<close> stores its entry (it returns \<open>True\<close>):
  a \<open>get(k)\<close> whose clock reading is not after the expiry time \<open>created_at + ttl\<close> returns
  \<open>v\<close>, in particular a \<open>get\<close> at the same instant when \<open>ttl\<close> is not negative; a \<open>get(k)\<close>
  after the expiry time returns \<open>None\<close> and leaves no entry for \<open>k\<close>. For any stored entry,
  a \<open>get\<close> after its expiry returns \<open>None\<close> and deletes it, and a \<open>get\<close> not after its
  expiry returns its value, adds one to its access count and sets its last-accessed time
  to the second clock reading.
\<close>

theorem cache_roundtrip_and_expiry:
  "(fst (CacheService_set c k v ttl t) \<longrightarrow>
      (t' \<le> t + timedelta_seconds (effective_ttl c ttl) \<longrightarrow>
         fst (CacheService_get (snd (CacheService_set c k v ttl t)) k t' t'') = v) \<and>
      (0 \<le> effective_ttl c ttl \<longrightarrow>
         fst (CacheService_get (snd (CacheService_set c k v ttl t)) k t t'') = v) \<and>
      (t + timedelta_seconds (effective_ttl c ttl) < t' \<longrightarrow>
         fst (CacheService_get (snd (CacheService_set c k v ttl t)) k t' t'') = PyNone \<and>
         k \<notin> fst ` set (cache (snd (CacheService_get (snd (CacheService_set c k v ttl t)) k t' t'')))))
   \<and> (map_of (cache c) k = Some e \<and> expires_at e < t' \<longrightarrow>
         fst (CacheService_get c k t' t'') = PyNone \<and>
         k \<notin> fst ` set (cache (snd (CacheService_get c k t' t''))))
   \<and> (map_of (cache c) k = Some e \<and> t' \<le> expires_at e \<longrightarrow>
         fst (CacheService_get c k t' t'') = value e \<and>
         map_of (cache (snd (CacheService_get c k t' t''))) k =
           Some (e \<lparr> access_count := access_count e + 1, last_accessed := t'' \<rparr>))"
proof (intro conjI impI)
  assume ok: "fst (CacheService_set c k v ttl t)"
  let ?c1 = "snd (CacheService_set c k v ttl t)"
  let ?e = "\<lparr> value = v, created_at = t, expires_at = t + timedelta_seconds (effective_ttl c ttl),
               access_count = 0, last_accessed = t \<rparr>"
  have m: "map_of (cache ?c1) k = Some ?e" by (rule set_stores [OF ok])
  {
    assume "t' \<le> t + timedelta_seconds (effective_ttl c ttl)"
    then show "fst (CacheService_get ?c1 k t' t'') = v"
      using get_hit(1) [OF m, of t' t''] by simp
  }
  {
    assume "0 \<le> effective_ttl c ttl"
    then have "t \<le> expires_at ?e" by (simp add: timedelta_seconds_def)
    then show "fst (CacheService_get ?c1 k t t'') = v"
      using get_hit(1) [OF m, of t t''] by simp
  }
  {
    assume late: "t + timedelta_seconds (effective_ttl c ttl) < t'"
    then have l: "expires_at ?e < t'" by simp
    show "fst (CacheService_get ?c1 k t' t'') = PyNone"
      by (rule get_expired(1) [OF m l])
    show "k \<notin> fst ` set (cache (snd (CacheService_get ?c1 k t' t'')))"
      by (rule get_expired(2) [OF m l])
  }
next
  assume a: "map_of (cache c) k = Some e \<and> expires_at e < t'"
  then show "fst (CacheService_get c k t' t'') = PyNone"
    using get_expired(1) by blast
  from a show "k \<notin> fst ` set (cache (snd (CacheService_get c k t' t'')))"
    using get_expired(2) by blast
next
  assume a: "map_of (cache c) k = Some e \<and> t' \<le> expires_at e"
  then show "fst (CacheService_get c k t' t'') = value e"
    using get_hit(1) by blast
  from a show "map_of (cache (snd (CacheService_get c k t' t''))) k =
           Some (e \<lparr> access_count := access_count e + 1, last_accessed := t'' \<rparr>)"
    using get_hit(2) by blast
qed

text \<open>
  Claim C3, the amended statement at concrete inputs: a fresh entry with a ttl of 60 seconds
  read at once and read after a minute, and a stored entry read at and after its expiry.
\<close>

theorem cache_roundtrip_and_expiry_witness:
  "fst (CacheService_set CacheService_init ''k'' (PyStr ''v'') (Some 60) 1000)
   \<and> fst (CacheService_get
            (snd (CacheService_set CacheService_init ''k'' (PyStr ''v'') (Some 60) 1000))
            ''k'' 1000 1001) = PyStr ''v''
   \<and> fst (CacheService_get
            (snd (CacheService_set CacheService_init ''k'' (PyStr ''v'') (Some 60) 1000))
            ''k'' 60001001 60001002) = PyNone
   \<and> map_of (cache sample_store) ''a'' =
        Some \<lparr> value = PyStr ''x'', created_at = 10, expires_at = 1000,
               access_count = 3, last_accessed = 50 \<rparr>
   \<and> fst (CacheService_get sample_store ''a'' 1000 1002) = PyStr ''x''
   \<and> map_of (cache (snd (CacheService_get sample_store ''a'' 1000 1002))) ''a'' =
        Some \<lparr> value = PyStr ''x'', created_at = 10, expires_at = 1000,
               access_count = 4, last_accessed = 1002 \<rparr>
   \<and> fst (CacheService_get sample_store ''a'' 1001 1002) = PyNone
   \<and> ''a'' \<notin> fst ` set (cache (snd (CacheService_get sample_store ''a'' 1001 1002)))"
proof -
  have ok: "fst (CacheService_set CacheService_init ''k'' (PyStr ''v'') (Some 60) 1000)"
    by (simp add: cache_defs)
  have ttl: "effective_ttl CacheService_init (Some 60) = 60"
    by (simp add: effective_ttl_def)
  have a: "map_of (cache sample_store) ''a'' =
        Some \<lparr> value = PyStr ''x'', created_at = 10, expires_at = 1000,
               access_count = 3, last_accessed = 50 \<rparr>"
    by (simp add: sample_store_def)
  note fresh = cache_roundtrip_and_expiry
    [where c = CacheService_init and k = "''k''" and v = "PyStr ''v''" and ttl = "Some 60"
       and t = 1000 and t' = 1000 and t'' = 1001]
  note late = cache_roundtrip_and_expiry
    [where c = CacheService_init and k = "''k''" and v = "PyStr ''v''" and ttl = "Some 60"
       and t = 1000 and t' = 60001001 and t'' = 60001002]
  note hit = cache_roundtrip_and_expiry
    [where c = sample_store and k = "''a''" and t' = 1000 and t'' = 1002
       and e = "\<lparr> value = PyStr ''x'', created_at = 10, expires_at = 1000,
               access_count = 3, last_accessed = 50 \<rparr>"]
  note gone = cache_roundtrip_and_expiry
    [where c = sample_store and k = "''a''" and t' = 1001 and t'' = 1002
       and e = "\<lparr> value = PyStr ''x'', created_at = 10, expires_at = 1000,
               access_count = 3, last_accessed = 50 \<rparr>"]
  from fresh ok ttl
  have 1: "fst (CacheService_get
            (snd (CacheService_set CacheService_init ''k'' (PyStr ''v'') (Some 60) 1000))
            ''k'' 1000 1001) = PyStr ''v''"
    by simp
  from late ok ttl
  have 2: "fst (CacheService_get
            (snd (CacheService_set CacheService_init ''k'' (PyStr ''v'') (Some 60) 1000))
            ''k'' 60001001 60001002) = PyNone"
    by (simp add: timedelta_seconds_def)
  from hit a
  have 3: "fst (CacheService_get sample_store ''a'' 1000 1002) = PyStr ''x''
     \<and> map_of (cache (snd (CacheService_get sample_store ''a'' 1000 1002))) ''a'' =
        Some \<lparr> value = PyStr ''x'', created_at = 10, expires_at = 1000,
               access_count = 4, last_accessed = 1002 \<rparr>"
    by simp
  from gone a
  have 4: "fst (CacheService_get sample_store ''a'' 1001 1002) = PyNone
     \<and> ''a'' \<notin> fst ` set (cache (snd (CacheService_get sample_store ''a'' 1001 1002)))"
    by simp
  from ok 1 2 a 3 4 show ?thesis by simp
qed

subsection \<open>Size bound and eviction\<close>

text \<open>
  Claim C4. After any sequence of public operations on a new service the store holds at most
  \<open>max_size\<close> = 1000 entries; more generally every operation preserves the bound for any
  positive \<open>max_size\<close>. A \<open>set\<close> that stores its entry while the store holds \<open>max_size\<close>
  entries first deletes exactly one key, whose last-accessed time is least among all
  entries, and then stores the new entry; for a key not yet present the store again holds
  \<open>max_size\<close> entries, the old keys without the victim plus the new key.
\<close>

theorem cache_size_bound_and_eviction:
  "length (cache (run_ops CacheService_init ops)) \<le> max_size (run_ops CacheService_init ops)
   \<and> max_size (run_ops CacheService_init ops) = 1000
   \<and> (cache_bounded c \<longrightarrow>
        cache_bounded (apply_op c op) \<and> max_size (apply_op c op) = max_size c)
   \<and> (cache_bounded c \<and> length (cache c) = max_size c \<and> fst (CacheService_set c k v ttl t) \<longrightarrow>
        (\<exists>victim ev. map_of (cache c) victim = Some ev
           \<and> (\<forall>k' e'. map_of (cache c) k' = Some e' \<longrightarrow> last_accessed ev \<le> last_accessed e')
           \<and> fst ` set (AList.delete victim (cache c)) = fst ` set (cache c) - {victim}
           \<and> Suc (length (AList.delete victim (cache c))) = max_size c
           \<and> cache (snd (CacheService_set c k v ttl t)) =
               AList.update k
                 \<lparr> value = v, created_at = t,
                   expires_at = t + timedelta_seconds (effective_ttl c ttl),
                   access_count = 0, last_accessed = t \<rparr>
                 (AList.delete victim (cache c))
           \<and> (k \<notin> fst ` set (cache c) \<longrightarrow>
                length (cache (snd (CacheService_set c k v ttl t))) = max_size c \<and>
                fst ` set (cache (snd (CacheService_set c k v ttl t))) =
                  insert k (fst ` set (cache c) - {victim}))))"
proof (intro conjI impI)
  have b: "cache_bounded (run_ops CacheService_init ops)"
    by (rule run_ops_bounded [OF init_bounded])
  then show "length (cache (run_ops CacheService_init ops)) \<le> max_size (run_ops CacheService_init ops)"
    by (simp add: cache_bounded_def)
  show "max_size (run_ops CacheService_init ops) = 1000"
    by (simp add: run_ops_max_size CacheService_init_def)
next
  assume "cache_bounded c"
  then show "cache_bounded (apply_op c op)" by (rule apply_op_bounded)
  show "max_size (apply_op c op) = max_size c" by (rule apply_op_max_size)
next
  assume "cache_bounded c \<and> length (cache c) = max_size c \<and> fst (CacheService_set c k v ttl t)"
  then show "\<exists>victim ev. map_of (cache c) victim = Some ev
           \<and> (\<forall>k' e'. map_of (cache c) k' = Some e' \<longrightarrow> last_accessed ev \<le> last_accessed e')
           \<and> fst ` set (AList.delete victim (cache c)) = fst ` set (cache c) - {victim}
           \<and> Suc (length (AList.delete victim (cache c))) = max_size c
           \<and> cache (snd (CacheService_set c k v ttl t)) =
               AList.update k
                 \<lparr> value = v, created_at = t,
                   expires_at = t + timedelta_seconds (effective_ttl c ttl),
                   access_count = 0, last_accessed = t \<rparr>
                 (AList.delete victim (cache c))
           \<and> (k \<notin> fst ` set (cache c) \<longrightarrow>
                length (cache (snd (CacheService_set c k v ttl t))) = max_size c \<and>
                fst ` set (cache (snd (CacheService_set c k v ttl t))) =
                  insert k (fst ` set (cache c) - {victim}))"
    using set_full_evicts by blast
qed

text \<open>
  Claim C4 at a concrete input: a full store of two entries where the first inserted entry
  was accessed last; inserting a third key evicts the second entry.
\<close>

theorem cache_size_bound_and_eviction_witness:
  "cache_bounded sample_store
   \<and> length (cache sample_store) = max_size sample_store
   \<and> fst (CacheService_set sample_store ''c'' (PyInt 7) None 100)
   \<and> ''c'' \<notin> fst ` set (cache sample_store)
   \<and> length (cache (snd (CacheService_set sample_store ''c'' (PyInt 7) None 100))) = 2
   \<and> cache_bounded (apply_op sample_store (OpSet ''c'' (PyInt 7) None 100))
   \<and> map fst (cache (snd (CacheService_set sample_store ''c'' (PyInt 7) None 100))) = [''a'', ''c'']"
proof -
  have b: "cache_bounded sample_store"
    by (simp add: cache_bounded_def cache_inv_def sample_store_def)
  have full: "length (cache sample_store) = max_size sample_store"
    by (simp add: sample_store_def)
  have ok: "fst (CacheService_set sample_store ''c'' (PyInt 7) None 100)"
    by (simp add: cache_defs sample_store_def)
  have new: "''c'' \<notin> fst ` set (cache sample_store)"
    by (simp add: sample_store_def)
  note T = cache_size_bound_and_eviction
    [where c = sample_store and k = "''c''" and v = "PyInt 7" and ttl = None and t = 100
       and op = "OpSet ''c'' (PyInt 7) None 100"]
  from T b full ok new
  have len: "length (cache (snd (CacheService_set sample_store ''c'' (PyInt 7) None 100))) = 2"
    by (auto simp: sample_store_def)
  from T b have pres: "cache_bounded (apply_op sample_store (OpSet ''c'' (PyInt 7) None 100))"
    by blast
  have keys: "map fst (cache (snd (CacheService_set sample_store ''c'' (PyInt 7) None 100))) = [''a'', ''c'']"
    by (simp add: cache_defs sample_store_def)
  from b full ok new len pres keys show ?thesis by simp
qed

subsection \<open>get\_or\_set\<close>

text \<open>
  Claim C5 as stated fails twice. A factory that raises on its first call and answers on
  its second makes \<open>get_or_set\<close> return normally: the handler calls the factory again, so
  the first failure does not reach the caller. And a key that holds an unexpired entry
  whose value is \<open>None\<close> does not stop the factory from being called.
\<close>

theorem get_or_set_counterexample:
  "flaky_factory 0 = Inl (Exception ''boom'')
   \<and> outcome (CacheService_get_or_set CacheService_init ''k'' flaky_factory None 1000 1000 1000)
       = Inr (PyStr ''second'')
   \<and> (\<exists>e. map_of (cache sample_store) ''b'' = Some e \<and> \<not> is_expired e 100)
   \<and> factory_calls
        (CacheService_get_or_set sample_store ''b'' (const_factory (PyInt 1)) None 100 100 100) = 1"
  by (simp add: CacheService_get_or_set_def cache_defs flaky_factory_def const_factory_def
      sample_store_def)

text \<open>
  Claim C5, amended. If \<open>k\<close> is absent or expired, \<open>get_or_set(k, factory)\<close> calls the
  factory. If that call returns a value, the value is returned after one call, and it is
  stored under \<open>k\<close> provided \<open>set\<close> can create the entry (the expiry time is a representable
  date). If that call raises, the factory is called a second time: the outcome of the second
  call, a value or an exception, is the outcome of \<open>get_or_set\<close>, and no entry is stored
  under \<open>k\<close>. If \<open>k\<close> holds an unexpired entry whose value is not \<open>None\<close>, that value is
  returned and the factory is not called.
\<close>

theorem get_or_set_behaviour:
  "((map_of (cache c) k = None \<or> (\<exists>e. map_of (cache c) k = Some e \<and> expires_at e < t)) \<longrightarrow>
      1 \<le> factory_calls (CacheService_get_or_set c k f ttl t t' ts)
      \<and> (\<forall>w. f 0 = Inr w \<longrightarrow>
            outcome (CacheService_get_or_set c k f ttl t t' ts) = Inr w
            \<and> factory_calls (CacheService_get_or_set c k f ttl t t' ts) = 1
            \<and> (datetime_ok (ts + timedelta_seconds (effective_ttl c ttl)) \<longrightarrow>
                 map_of (cache (service (CacheService_get_or_set c k f ttl t t' ts))) k =
                   Some \<lparr> value = w, created_at = ts,
                          expires_at = ts + timedelta_seconds (effective_ttl c ttl),
                          access_count = 0, last_accessed = ts \<rparr>))
      \<and> (\<forall>x. f 0 = Inl x \<longrightarrow>
            outcome (CacheService_get_or_set c k f ttl t t' ts) = f 1
            \<and> factory_calls (CacheService_get_or_set c k f ttl t t' ts) = 2
            \<and> k \<notin> fst ` set (cache (service (CacheService_get_or_set c k f ttl t t' ts)))))
   \<and> (\<forall>e. map_of (cache c) k = Some e \<and> t \<le> expires_at e \<and> value e \<noteq> PyNone \<longrightarrow>
         outcome (CacheService_get_or_set c k f ttl t t' ts) = Inr (value e)
         \<and> factory_calls (CacheService_get_or_set c k f ttl t t' ts) = 0)"
proof -
  obtain v c1 where g: "CacheService_get c k t t' = (v, c1)"
    by (cases "CacheService_get c k t t'")
  let ?r = "CacheService_get_or_set c k f ttl t t' ts"
  have hit: "outcome ?r = Inr (value e) \<and> factory_calls ?r = 0"
    if "map_of (cache c) k = Some e" "t \<le> expires_at e" "value e \<noteq> PyNone" for e
  proof -
    from get_hit(1) [OF that(1,2), of t'] g have "v = value e" by simp
    with that(3) g show ?thesis by (simp add: CacheService_get_or_set_def)
  qed
  have miss: "1 \<le> factory_calls ?r
      \<and> (\<forall>w. f 0 = Inr w \<longrightarrow>
            outcome ?r = Inr w \<and> factory_calls ?r = 1
            \<and> (datetime_ok (ts + timedelta_seconds (effective_ttl c ttl)) \<longrightarrow>
                 map_of (cache (service ?r)) k =
                   Some \<lparr> value = w, created_at = ts,
                          expires_at = ts + timedelta_seconds (effective_ttl c ttl),
                          access_count = 0, last_accessed = ts \<rparr>))
      \<and> (\<forall>x. f 0 = Inl x \<longrightarrow>
            outcome ?r = f 1 \<and> factory_calls ?r = 2 \<and> k \<notin> fst ` set (cache (service ?r)))"
    if m: "map_of (cache c) k = None \<or> (\<exists>e. map_of (cache c) k = Some e \<and> expires_at e < t)"
  proof -
    from get_miss [OF m, of t'] g
    have v: "v = PyNone" and nk: "k \<notin> fst ` set (cache c1)" and d: "default_ttl c1 = default_ttl c"
      by simp_all
    have ttl: "effective_ttl c1 ttl = effective_ttl c ttl"
      using d by (cases ttl) (simp_all add: effective_ttl_def)
    have stored: "map_of (cache (snd (CacheService_set c1 k w ttl ts))) k =
                   Some \<lparr> value = w, created_at = ts,
                          expires_at = ts + timedelta_seconds (effective_ttl c ttl),
                          access_count = 0, last_accessed = ts \<rparr>"
      if "datetime_ok (ts + timedelta_seconds (effective_ttl c ttl))" for w
      using set_stores [of c1 k w ttl ts] that ttl by (simp add: set_success_iff)
    show ?thesis
      using g v nk stored
      by (cases "f 0") (simp_all add: CacheService_get_or_set_def)
  qed
  from hit miss show ?thesis by blast
qed

text \<open>
  Claim C5, the amended statement at concrete inputs: a miss filled by a factory that
  answers, a miss with a factory that always raises, and a hit.
\<close>

theorem get_or_set_behaviour_witness:
  "map_of (cache CacheService_init) ''k'' = None
   \<and> outcome (CacheService_get_or_set CacheService_init ''k'' (const_factory (PyInt 1)) None 1000 1000 2000)
       = Inr (PyInt 1)
   \<and> map_of (cache (service
        (CacheService_get_or_set CacheService_init ''k'' (const_factory (PyInt 1)) None 1000 1000 2000))) ''k''
       = Some \<lparr> value = PyInt 1, created_at = 2000, expires_at = 3600002000,
                access_count = 0, last_accessed = 2000 \<rparr>
   \<and> outcome (CacheService_get_or_set CacheService_init ''k'' failing_factory None 1000 1000 2000)
       = Inl (Exception ''boom'')
   \<and> factory_calls (CacheService_get_or_set CacheService_init ''k'' failing_factory None 1000 1000 2000) = 2
   \<and> ''k'' \<notin> fst ` set (cache (service
        (CacheService_get_or_set CacheService_init ''k'' failing_factory None 1000 1000 2000)))
   \<and> outcome (CacheService_get_or_set sample_store ''a'' failing_factory None 100 100 100)
       = Inr (PyStr ''x'')
   \<and> factory_calls (CacheService_get_or_set sample_store ''a'' failing_factory None 100 100 100) = 0"
proof -
  have absent: "map_of (cache CacheService_init) ''k'' = None"
    by (simp add: CacheService_init_def)
  have ok: "datetime_ok (2000 + timedelta_seconds (effective_ttl CacheService_init None))"
    by (simp add: cache_defs)
  have ex: "2000 + timedelta_seconds (effective_ttl CacheService_init None) = 3600002000"
    by (simp add: cache_defs)
  have a: "map_of (cache sample_store) ''a'' =
        Some \<lparr> value = PyStr ''x'', created_at = 10, expires_at = 1000,
               access_count = 3, last_accessed = 50 \<rparr>"
    by (simp add: sample_store_def)
  note filled = get_or_set_behaviour
    [where c = CacheService_init and k = "''k''" and f = "const_factory (PyInt 1)"
       and ttl = None and t = 1000 and t' = 1000 and ts = 2000]
  note failed = get_or_set_behaviour
    [where c = CacheService_init and k = "''k''" and f = failing_factory
       and ttl = None and t = 1000 and t' = 1000 and ts = 2000]
  note hit = get_or_set_behaviour
    [where c = sample_store and k = "''a''" and f = failing_factory
       and ttl = None and t = 100 and t' = 100 and ts = 100]
  from filled absent ok ex
  have 1: "outcome (CacheService_get_or_set CacheService_init ''k'' (const_factory (PyInt 1)) None 1000 1000 2000)
       = Inr (PyInt 1)
     \<and> map_of (cache (service
        (CacheService_get_or_set CacheService_init ''k'' (const_factory (PyInt 1)) None 1000 1000 2000))) ''k''
       = Some \<lparr> value = PyInt 1, created_at = 2000, expires_at = 3600002000,
                access_count = 0, last_accessed = 2000 \<rparr>"
    by (simp add: const_factory_def)
  from failed absent
  have 2: "outcome (CacheService_get_or_set CacheService_init ''k'' failing_factory None 1000 1000 2000)
       = Inl (Exception ''boom'')
     \<and> factory_calls (CacheService_get_or_set CacheService_init ''k'' failing_factory None 1000 1000 2000) = 2
     \<and> ''k'' \<notin> fst ` set (cache (service
        (CacheService_get_or_set CacheService_init ''k'' failing_factory None 1000 1000 2000)))"
    by (simp add: failing_factory_def)
  from hit a
  have 3: "outcome (CacheService_get_or_set sample_store ''a'' failing_factory None 100 100 100)
       = Inr (PyStr ''x'')
     \<and> factory_calls (CacheService_get_or_set sample_store ''a'' failing_factory None 100 100 100) = 0"
    by simp
  from absent 1 2 3 show ?thesis by simp
qed

subsection \<open>A stored None\<close>

text \<open>
  Claim C10. For a key whose stored value is \<open>None\<close>, \<open>get\<close> returns \<open>None\<close>, the very
  result it returns for an absent key, and \<open>get_or_set\<close> calls the factory although the
  entry exists, expired or not: its outcome is the factory's (the first call's value, or
  after a first failure the second call's outcome). So \<open>set(k, None)\<close> followed by
  \<open>get(k)\<close> yields what a miss yields.
\<close>

theorem stored_none_is_a_miss:
  "(map_of (cache c) k = Some e \<and> value e = PyNone \<longrightarrow>
      fst (CacheService_get c k t t') = PyNone
      \<and> 1 \<le> factory_calls (CacheService_get_or_set c k f ttl t t' ts)
      \<and> outcome (CacheService_get_or_set c k f ttl t t' ts)
          = (case f 0 of Inr w \<Rightarrow> Inr w | Inl x \<Rightarrow> f 1))
   \<and> (map_of (cache c) k = None \<longrightarrow> fst (CacheService_get c k t t') = PyNone)
   \<and> (fst (CacheService_set c k PyNone ttl ts) \<longrightarrow>
        fst (CacheService_get (snd (CacheService_set c k PyNone ttl ts)) k t t') = PyNone)"
proof (intro conjI impI)
  assume a: "map_of (cache c) k = Some e \<and> value e = PyNone"
  then have g: "fst (CacheService_get c k t t') = PyNone"
    by (simp add: CacheService_get_def Let_def)
  then show "fst (CacheService_get c k t t') = PyNone" .
  obtain v c1 where vc: "CacheService_get c k t t' = (v, c1)"
    by (cases "CacheService_get c k t t'")
  with g have v: "v = PyNone" by simp
  from vc v show "1 \<le> factory_calls (CacheService_get_or_set c k f ttl t t' ts)"
    by (simp add: CacheService_get_or_set_def split: sum.splits)
  from vc v show "outcome (CacheService_get_or_set c k f ttl t t' ts)
          = (case f 0 of Inr w \<Rightarrow> Inr w | Inl x \<Rightarrow> f 1)"
    by (simp add: CacheService_get_or_set_def split: sum.splits)
next
  assume "map_of (cache c) k = None"
  then show "fst (CacheService_get c k t t') = PyNone"
    by (simp add: CacheService_get_def)
next
  assume ok: "fst (CacheService_set c k PyNone ttl ts)"
  have "map_of (cache (snd (CacheService_set c k PyNone ttl ts))) k =
           Some \<lparr> value = PyNone, created_at = ts,
                  expires_at = ts + timedelta_seconds (effective_ttl c ttl),
                  access_count = 0, last_accessed = ts \<rparr>"
    by (rule set_stores [OF ok])
  then show "fst (CacheService_get (snd (CacheService_set c k PyNone ttl ts)) k t t') = PyNone"
    by (simp add: CacheService_get_def Let_def)
qed

text \<open>
  Claim C10 at concrete inputs: key \<open>b\<close> of the sample store holds \<open>None\<close> and is not
  expired at time 100, key \<open>zz\<close> is absent.
\<close>

theorem stored_none_is_a_miss_witness:
  "(\<exists>e. map_of (cache sample_store) ''b'' = Some e \<and> value e = PyNone \<and> \<not> is_expired e 100)
   \<and> map_of (cache sample_store) ''zz'' = None
   \<and> fst (CacheService_get sample_store ''b'' 100 100) = PyNone
   \<and> fst (CacheService_get sample_store ''zz'' 100 100) = PyNone
   \<and> factory_calls
        (CacheService_get_or_set sample_store ''b'' (const_factory (PyInt 1)) None 100 100 100) = 1
   \<and> outcome
        (CacheService_get_or_set sample_store ''b'' (const_factory (PyInt 1)) None 100 100 100)
       = Inr (PyInt 1)
   \<and> fst (CacheService_set CacheService_init ''n'' PyNone None 1000)
   \<and> fst (CacheService_get (snd (CacheService_set CacheService_init ''n'' PyNone None 1000))
            ''n'' 1000 1000) = PyNone"
proof -
  let ?e = "\<lparr> value = PyNone, created_at = 15, expires_at = 1000,
               access_count = 0, last_accessed = 20 \<rparr>"
  have b: "map_of (cache sample_store) ''b'' = Some ?e \<and> value ?e = PyNone"
    by (simp add: sample_store_def)
  have fresh: "\<not> is_expired ?e 100" by (simp add: is_expired_def)
  have zz: "map_of (cache sample_store) ''zz'' = None"
    by (simp add: sample_store_def)
  have ok: "fst (CacheService_set CacheService_init ''n'' PyNone None 1000)"
    by (simp add: cache_defs)
  note stored = stored_none_is_a_miss
    [where c = sample_store and k = "''b''" and e = ?e and t = 100 and t' = 100 and ts = 100
       and f = "const_factory (PyInt 1)" and ttl = None]
  note absent = stored_none_is_a_miss
    [where c = sample_store and k = "''zz''" and t = 100 and t' = 100]
  note trip = stored_none_is_a_miss
    [where c = CacheService_init and k = "''n''" and ttl = None and ts = 1000 and t = 1000
       and t' = 1000]
  from stored b
  have 1: "fst (CacheService_get sample_store ''b'' 100 100) = PyNone
     \<and> 1 \<le> factory_calls
        (CacheService_get_or_set sample_store ''b'' (const_factory (PyInt 1)) None 100 100 100)
     \<and> outcome
        (CacheService_get_or_set sample_store ''b'' (const_factory (PyInt 1)) None 100 100 100)
       = Inr (PyInt 1)"
    by (simp add: const_factory_def)
  have calls: "factory_calls
        (CacheService_get_or_set sample_store ''b'' (const_factory (PyInt 1)) None 100 100 100) = 1"
    by (simp add: CacheService_get_or_set_def cache_defs const_factory_def sample_store_def)
  from absent zz have 2: "fst (CacheService_get sample_store ''zz'' 100 100) = PyNone"
    by simp
  from trip ok
  have 3: "fst (CacheService_get (snd (CacheService_set CacheService_init ''n'' PyNone None 1000))
            ''n'' 1000 1000) = PyNone"
    by simp
  from b fresh zz 1 calls 2 ok 3 show ?thesis by auto
qed

section \<open>Properties of the LLM manager\<close>

subsection \<open>Auxiliary facts\<close>

lemma add_others_distinct:
  "distinct xs \<Longrightarrow> add_others acc xs = acc @ filter (\<lambda>x. x \<notin> set acc) xs"
proof (induction xs arbitrary: acc)
  case Nil
  then show ?case by simp
next
  case (Cons x xs)
  show ?case
  proof (cases "x \<in> set acc")
    case True
    with Cons show ?thesis by simp
  next
    case False
    from Cons.prems have "x \<notin> set xs" and d: "distinct xs" by simp_all
    then have "filter (\<lambda>y. y \<notin> set (acc @ [x])) xs = filter (\<lambda>y. y \<notin> set acc) xs"
      by (intro filter_cong) auto
    with False Cons.IH [OF d, of "acc @ [x]"] show ?thesis by simp
  qed
qed

lemma try_models_success:
  assumes "k < length cs"
    and "\<forall>i<k. \<exists>h e. map_of (models m) (cs ! i) = Some h \<and> ainvoke h msgs = Inl e"
    and "map_of (models m) (cs ! k) = Some h" and "ainvoke h msgs = Inr t"
  shows "try_models m ainvoke msgs cs invoked =
           (\<lparr> success = True, response = t, model_used = Some (cs ! k), error = None \<rparr>,
            invoked @ take (Suc k) cs)"
  using assms
proof (induction cs arbitrary: k invoked)
  case Nil
  then show ?case by simp
next
  case (Cons c cs)
  show ?case
  proof (cases k)
    case 0
    with Cons.prems show ?thesis by simp
  next
    case (Suc j)
    from Cons.prems(2) Suc obtain h0 e0 where
      h0: "map_of (models m) c = Some h0" "ainvoke h0 msgs = Inl e0"
      by fastforce
    have prev: "\<forall>i<j. \<exists>h e. map_of (models m) (cs ! i) = Some h \<and> ainvoke h msgs = Inl e"
      using Cons.prems(2) Suc by fastforce
    have "try_models m ainvoke msgs cs (invoked @ [c]) =
           (\<lparr> success = True, response = t, model_used = Some (cs ! j), error = None \<rparr>,
            (invoked @ [c]) @ take (Suc j) cs)"
      using Cons.prems Suc prev by (intro Cons.IH) simp_all
    with h0 Suc show ?thesis by simp
  qed
qed

lemma try_models_all_fail:
  assumes "\<forall>c \<in> set cs. \<forall>h. map_of (models m) c = Some h \<longrightarrow> (\<exists>e. ainvoke h msgs = Inl e)"
  shows "try_models m ainvoke msgs cs invoked =
           (all_failed, invoked @ filter (\<lambda>c. c \<in> fst ` set (models m)) cs)"
  using assms
proof (induction cs arbitrary: invoked)
  case Nil
  then show ?case by simp
next
  case (Cons c cs)
  show ?case
  proof (cases "map_of (models m) c")
    case None
    then have "c \<notin> fst ` set (models m)" by (simp add: map_of_eq_None_iff)
    with None Cons show ?thesis by simp
  next
    case (Some h)
    then have in_keys: "c \<in> fst ` set (models m)"
      by (auto dest: map_of_SomeD intro: rev_image_eqI)
    from Cons.prems Some obtain e where "ainvoke h msgs = Inl e" by auto
    with Some in_keys Cons show ?thesis by simp
  qed
qed

lemma register_model_ok:
  assumes "manager_ok m" and "ident \<noteq> []" and "ident \<notin> set (model_order m)"
  shows "manager_ok (register_model ctor_error ident key placeholder cls mn m)"
  using assms
  by (auto simp: register_model_def manager_ok_def Let_def dom_update split: option.splits)

lemma register_model_order:
  "set (model_order (register_model ctor_error ident key placeholder cls mn m))
     \<subseteq> insert ident (set (model_order m))"
  by (auto simp: register_model_def Let_def split: option.splits)

lemma initialize_models_ok:
  assumes "initialize_models ctor_error settings = Inr m"
  shows "manager_ok m \<and> model_order m \<noteq> []"
proof -
  let ?m0 = "\<lparr> models = [], model_order = [] \<rparr>"
  let ?m1 = "register_model ctor_error ''openai'' (openai_api_key settings)
                 ''your_openai_key'' ''ChatOpenAI'' ''gpt-3.5-turbo'' ?m0"
  let ?m2 = "register_model ctor_error ''groq'' (groq_api_key settings)
                 ''your_groq_key'' ''ChatGroq'' ''llama-3.1-8b-instant'' ?m1"
  let ?m3 = "register_model ctor_error ''google'' (google_api_key settings)
                 ''your_google_key'' ''ChatGoogleGenerativeAI'' ''gemini-1.5-flash'' ?m2"
  let ?m4 = "register_model ctor_error ''anthropic'' (anthropic_api_key settings)
                 ''your_anthropic_key'' ''ChatAnthropic'' ''claude-3-sonnet-20240229'' ?m3"
  have ok0: "manager_ok ?m0" by (simp add: manager_ok_def)
  have ok1: "manager_ok ?m1" by (rule register_model_ok [OF ok0]) simp_all
  have s1: "set (model_order ?m1) \<subseteq> {''openai''}"
    using register_model_order [of ctor_error "''openai''" _ _ _ _ ?m0] by simp
  have ok2: "manager_ok ?m2" by (rule register_model_ok [OF ok1]) (use s1 in auto)
  have s2: "set (model_order ?m2) \<subseteq> {''groq'', ''openai''}"
    using register_model_order [of ctor_error "''groq''" _ _ _ _ ?m1] s1 by blast
  have ok3: "manager_ok ?m3" by (rule register_model_ok [OF ok2]) (use s2 in auto)
  have s3: "set (model_order ?m3) \<subseteq> {''google'', ''groq'', ''openai''}"
    using register_model_order [of ctor_error "''google''" _ _ _ _ ?m2] s2 by blast
  have ok4: "manager_ok ?m4" by (rule register_model_ok [OF ok3]) (use s3 in auto)
  from assms have m: "m = ?m4" and ne: "models ?m4 \<noteq> []"
    by (auto simp: initialize_models_def Let_def split: if_splits)
  from ne ok4 have "model_order ?m4 \<noteq> []"
    by (auto simp: manager_ok_def)
  with ok4 m show ?thesis by simp
qed

lemma models_to_try_order:
  assumes "manager_ok m"
  shows "(\<forall>p. preferred_model = Some p \<and> p \<in> set (model_order m) \<longrightarrow>
            models_to_try m preferred_model = p # filter (\<lambda>x. x \<noteq> p) (model_order m))"
    and "(preferred_model = None \<or> (\<exists>p. preferred_model = Some p \<and> p \<notin> set (model_order m))) \<longrightarrow>
            models_to_try m preferred_model = model_order m"
    and "distinct (models_to_try m preferred_model)"
proof -
  from assms have d: "distinct (model_order m)"
    and keys: "set (model_order m) = fst ` set (models m)"
    and ne: "[] \<notin> set (model_order m)"
    unfolding manager_ok_def by blast+
  have eq: "models_to_try m preferred_model =
      preferred_first m preferred_model
        @ filter (\<lambda>x. x \<notin> set (preferred_first m preferred_model)) (model_order m)"
    by (simp add: models_to_try_def add_others_distinct [OF d])
  show "\<forall>p. preferred_model = Some p \<and> p \<in> set (model_order m) \<longrightarrow>
            models_to_try m preferred_model = p # filter (\<lambda>x. x \<noteq> p) (model_order m)"
  proof (intro allI impI)
    fix p assume a: "preferred_model = Some p \<and> p \<in> set (model_order m)"
    with ne have "p \<noteq> []" by auto
    with a keys have "preferred_first m preferred_model = [p]"
      by (simp add: preferred_first_def)
    with eq show "models_to_try m preferred_model = p # filter (\<lambda>x. x \<noteq> p) (model_order m)"
      by simp
  qed
  show "(preferred_model = None \<or> (\<exists>p. preferred_model = Some p \<and> p \<notin> set (model_order m))) \<longrightarrow>
            models_to_try m preferred_model = model_order m"
  proof
    assume "preferred_model = None \<or> (\<exists>p. preferred_model = Some p \<and> p \<notin> set (model_order m))"
    with keys have "preferred_first m preferred_model = []"
      by (auto simp: preferred_first_def)
    with eq show "models_to_try m preferred_model = model_order m" by simp
  qed
  have "distinct (preferred_first m preferred_model)"
    by (simp add: preferred_first_def split: option.splits)
  with d eq show "distinct (models_to_try m preferred_model)" by auto
qed

lemma sample_manager_init:
  "initialize_models (\<lambda>h. None) sample_settings = Inr sample_manager"
  by (simp add: initialize_models_def register_model_def sample_settings_def sample_manager_def Let_def)

lemmas llm_defs =
  models_to_try_def preferred_first_def sample_manager_def google_only_def all_down_def
  prepare_messages_def generate_text_def all_failed_def

subsection \<open>Order of the candidates and first success\<close>

text \<open>
  Claim C1. For a registry as \<open>_initialize_models\<close> builds it, the candidates tried by
  \<open>generate_text\<close> are the preferred identifier, if it is registered, followed by the other
  registered identifiers in registration order, without duplicates; a preference that is
  absent or not registered leaves the registration order. If the first \<open>k\<close> candidates
  raise and the next one answers, the result has \<open>success = True\<close>, the answer as its
  text and that candidate as \<open>model_used\<close>, and exactly the first \<open>k + 1\<close> candidates were
  invoked.
\<close>

theorem generate_text_fallback_order:
  "(manager_ok m \<longrightarrow>
      (\<forall>p. preferred_model = Some p \<and> p \<in> set (model_order m) \<longrightarrow>
         models_to_try m preferred_model = p # filter (\<lambda>x. x \<noteq> p) (model_order m))
      \<and> ((preferred_model = None \<or> (\<exists>p. preferred_model = Some p \<and> p \<notin> set (model_order m))) \<longrightarrow>
           models_to_try m preferred_model = model_order m)
      \<and> distinct (models_to_try m preferred_model))
   \<and> (\<forall>k h t.
        k < length (models_to_try m preferred_model)
        \<and> (\<forall>i<k. \<exists>h' e. map_of (models m) (models_to_try m preferred_model ! i) = Some h'
                     \<and> ainvoke h' (prepare_messages prompt system_prompt) = Inl e)
        \<and> map_of (models m) (models_to_try m preferred_model ! k) = Some h
        \<and> ainvoke h (prepare_messages prompt system_prompt) = Inr t
        \<longrightarrow> generate_text m ainvoke prompt system_prompt preferred_model =
              (\<lparr> success = True, response = t,
                 model_used = Some (models_to_try m preferred_model ! k), error = None \<rparr>,
               take (Suc k) (models_to_try m preferred_model)))"
proof -
  have order: "(\<forall>p. preferred_model = Some p \<and> p \<in> set (model_order m) \<longrightarrow>
         models_to_try m preferred_model = p # filter (\<lambda>x. x \<noteq> p) (model_order m))
      \<and> ((preferred_model = None \<or> (\<exists>p. preferred_model = Some p \<and> p \<notin> set (model_order m))) \<longrightarrow>
           models_to_try m preferred_model = model_order m)
      \<and> distinct (models_to_try m preferred_model)"
    if ok: "manager_ok m"
    using models_to_try_order [OF ok, of preferred_model] by blast
  have loop: "generate_text m ainvoke prompt system_prompt preferred_model =
              (\<lparr> success = True, response = t,
                 model_used = Some (models_to_try m preferred_model ! k), error = None \<rparr>,
               take (Suc k) (models_to_try m preferred_model))"
    if "k < length (models_to_try m preferred_model)
        \<and> (\<forall>i<k. \<exists>h' e. map_of (models m) (models_to_try m preferred_model ! i) = Some h'
                     \<and> ainvoke h' (prepare_messages prompt system_prompt) = Inl e)
        \<and> map_of (models m) (models_to_try m preferred_model ! k) = Some h
        \<and> ainvoke h (prepare_messages prompt system_prompt) = Inr t"
    for k h t
    unfolding generate_text_def
    using that try_models_success [of k "models_to_try m preferred_model" m ainvoke
        "prepare_messages prompt system_prompt" h t "[]"]
    by simp
  from order loop show ?thesis by blast
qed

text \<open>
  Claim C1 at a concrete input: three registered providers, \<open>groq\<close> preferred, the first
  two candidates raise and \<open>google\<close> answers; an unregistered preference is ignored.
\<close>

theorem generate_text_fallback_order_witness:
  "manager_ok sample_manager
   \<and> models_to_try sample_manager (Some ''groq'') = [''groq'', ''openai'', ''google'']
   \<and> models_to_try sample_manager (Some ''mistral'') = [''openai'', ''groq'', ''google'']
   \<and> generate_text sample_manager google_only ''Hello'' None (Some ''groq'') =
        (\<lparr> success = True, response = ''Jane Doe'', model_used = Some ''google'', error = None \<rparr>,
         [''groq'', ''openai'', ''google''])"
proof -
  have ok: "manager_ok sample_manager"
    by (simp add: manager_ok_def sample_manager_def)
  have reg: "''groq'' \<in> set (model_order sample_manager)"
    and unreg: "''mistral'' \<notin> set (model_order sample_manager)"
    by (simp_all add: sample_manager_def)
  note T = generate_text_fallback_order
    [where m = sample_manager and preferred_model = "Some ''groq''" and ainvoke = google_only
       and prompt = "''Hello''" and system_prompt = None]
  note U = generate_text_fallback_order
    [where m = sample_manager and preferred_model = "Some ''mistral''"]
  from T ok reg
  have cands: "models_to_try sample_manager (Some ''groq'') = [''groq'', ''openai'', ''google'']"
    by (simp add: sample_manager_def)
  from U ok unreg
  have dflt: "models_to_try sample_manager (Some ''mistral'') = [''openai'', ''groq'', ''google'']"
    by (simp add: sample_manager_def)
  have fails: "\<forall>i<2. \<exists>h' e.
      map_of (models sample_manager) (models_to_try sample_manager (Some ''groq'') ! i) = Some h'
      \<and> google_only h' (prepare_messages ''Hello'' None) = Inl e"
    unfolding cands by (simp add: less_Suc_eq numeral_2_eq_2 sample_manager_def google_only_def)
  have works: "\<exists>h. map_of (models sample_manager) (models_to_try sample_manager (Some ''groq'') ! 2) = Some h
      \<and> google_only h (prepare_messages ''Hello'' None) = Inr ''Jane Doe''"
    unfolding cands by (simp add: sample_manager_def google_only_def)
  have len: "2 < length (models_to_try sample_manager (Some ''groq''))"
    unfolding cands by simp
  from T len fails works
  have "generate_text sample_manager google_only ''Hello'' None (Some ''groq'') =
        (\<lparr> success = True, response = ''Jane Doe'',
           model_used = Some (models_to_try sample_manager (Some ''groq'') ! 2), error = None \<rparr>,
         take (Suc 2) (models_to_try sample_manager (Some ''groq'')))"
    by blast
  then have res: "generate_text sample_manager google_only ''Hello'' None (Some ''groq'') =
        (\<lparr> success = True, response = ''Jane Doe'', model_used = Some ''google'', error = None \<rparr>,
         [''groq'', ''openai'', ''google''])"
    unfolding cands by simp
  from ok cands dflt res show ?thesis by simp
qed

subsection \<open>Exhaustion\<close>

text \<open>
  Claim C2. If every candidate's call raises (in particular if there is no candidate), the
  result of \<open>generate_text\<close> is the fixed failure: \<open>success = False\<close>, the apology text and
  \<open>model_used = None\<close>. With an empty registry the candidate list is empty and no client
  is invoked.
\<close>

theorem generate_text_all_fail:
  "((\<forall>c \<in> set (models_to_try m preferred_model). \<forall>h. map_of (models m) c = Some h \<longrightarrow>
        (\<exists>e. ainvoke h (prepare_messages prompt system_prompt) = Inl e)) \<longrightarrow>
      fst (generate_text m ainvoke prompt system_prompt preferred_model) = all_failed)
   \<and> success all_failed = False
   \<and> response all_failed =
       ''I apologize, but I'm unable to generate a response at this time. Please try again later.''
   \<and> model_used all_failed = None
   \<and> (models m = [] \<and> model_order m = [] \<longrightarrow>
        models_to_try m preferred_model = [])
   \<and> (models_to_try m preferred_model = [] \<longrightarrow>
        generate_text m ainvoke prompt system_prompt preferred_model = (all_failed, []))"
proof (intro conjI impI)
  assume "\<forall>c \<in> set (models_to_try m preferred_model). \<forall>h. map_of (models m) c = Some h \<longrightarrow>
        (\<exists>e. ainvoke h (prepare_messages prompt system_prompt) = Inl e)"
  then show "fst (generate_text m ainvoke prompt system_prompt preferred_model) = all_failed"
    unfolding generate_text_def by (simp add: try_models_all_fail)
next
  show "success all_failed = False" by (simp add: all_failed_def)
  show "response all_failed =
       ''I apologize, but I'm unable to generate a response at this time. Please try again later.''"
    by (simp add: all_failed_def)
  show "model_used all_failed = None" by (simp add: all_failed_def)
next
  assume "models m = [] \<and> model_order m = []"
  then show "models_to_try m preferred_model = []"
    by (simp add: models_to_try_def preferred_first_def split: option.splits)
next
  assume "models_to_try m preferred_model = []"
  then show "generate_text m ainvoke prompt system_prompt preferred_model = (all_failed, [])"
    by (simp add: generate_text_def)
qed

text \<open>
  Claim C2 at concrete inputs: three providers that all raise, and an empty registry.
\<close>

theorem generate_text_all_fail_witness:
  "list_all (\<lambda>c. case map_of (models sample_manager) c of
                     None \<Rightarrow> True
                   | Some h \<Rightarrow> isl (all_down h (prepare_messages ''Hello'' None)))
      (models_to_try sample_manager None)
   \<and> fst (generate_text sample_manager all_down ''Hello'' None None) = all_failed
   \<and> models_to_try \<lparr> models = [], model_order = [] \<rparr> (Some ''openai'') = []
   \<and> generate_text \<lparr> models = [], model_order = [] \<rparr> google_only ''Hello'' None (Some ''openai'')
        = (all_failed, [])"
proof -
  have down: "\<forall>c \<in> set (models_to_try sample_manager None). \<forall>h. map_of (models sample_manager) c = Some h \<longrightarrow>
        (\<exists>e. all_down h (prepare_messages ''Hello'' None) = Inl e)"
    by (simp add: all_down_def)
  note T = generate_text_all_fail
    [where m = sample_manager and preferred_model = None and ainvoke = all_down
       and prompt = "''Hello''" and system_prompt = None]
  note E = generate_text_all_fail
    [where m = "\<lparr> models = [], model_order = [] \<rparr>" and preferred_model = "Some ''openai''"
       and ainvoke = google_only and prompt = "''Hello''" and system_prompt = None]
  from T down have 1: "fst (generate_text sample_manager all_down ''Hello'' None None) = all_failed"
    by blast
  from E have 2: "models_to_try \<lparr> models = [], model_order = [] \<rparr> (Some ''openai'') = []"
    by simp
  from E 2 have 3: "generate_text \<lparr> models = [], model_order = [] \<rparr> google_only ''Hello'' None (Some ''openai'')
        = (all_failed, [])"
    by blast
  have listed: "list_all (\<lambda>c. case map_of (models sample_manager) c of
                     None \<Rightarrow> True
                   | Some h \<Rightarrow> isl (all_down h (prepare_messages ''Hello'' None)))
      (models_to_try sample_manager None)"
    by (simp add: list_all_iff all_down_def split: option.splits)
  from listed 1 2 3 show ?thesis by simp
qed

section \<open>Properties of the intent classification\<close>

subsection \<open>Auxiliary facts\<close>

lemma lower_char_code:
  "(of_char (lower_char ch) :: nat) =
     (if 65 \<le> (of_char ch :: nat) \<and> (of_char ch :: nat) \<le> 90 then of_char ch + 32 else of_char ch)"
proof (cases ch)
  case (Char b0 b1 b2 b3 b4 b5 b6 b7)
  then show ?thesis
    by (cases b0; cases b1; cases b2; cases b3; cases b4; cases b5; cases b6; cases b7)
       (simp_all add: lower_char_def)
qed

lemma starts_with_iff: "starts_with k s \<longleftrightarrow> (\<exists>b. s = k @ b)"
  by (induction k s rule: starts_with.induct) auto

lemma py_in_iff: "py_in k s \<longleftrightarrow> (\<exists>a b. s = a @ k @ b)"
proof (induction s)
  case Nil
  then show ?case by auto
next
  case (Cons c cs)
  show ?case
  proof
    assume "py_in k (c # cs)"
    then consider "starts_with k (c # cs)" | "py_in k cs" by auto
    then show "\<exists>a b. c # cs = a @ k @ b"
    proof cases
      case 1
      then obtain b where "c # cs = k @ b" by (auto simp: starts_with_iff)
      then have "c # cs = [] @ k @ b" by simp
      then show ?thesis by blast
    next
      case 2
      with Cons obtain a b where "cs = a @ k @ b" by blast
      then have "c # cs = (c # a) @ k @ b" by simp
      then show ?thesis by blast
    qed
  next
    assume "\<exists>a b. c # cs = a @ k @ b"
    then obtain a b where ab: "c # cs = a @ k @ b" by blast
    show "py_in k (c # cs)"
    proof (cases a)
      case Nil
      with ab have "starts_with k (c # cs)" by (auto simp: starts_with_iff)
      then show ?thesis by simp
    next
      case (Cons x a')
      with ab have "cs = a' @ k @ b" by simp
      with Cons.IH have "py_in k cs" by blast
      then show ?thesis by simp
    qed
  qed
qed

lemma py_in_lower:
  assumes "py_in k s"
  shows "py_in (lower k) (lower s)"
proof -
  from assms obtain a b where "s = a @ k @ b" by (auto simp: py_in_iff)
  then have "lower s = lower a @ lower k @ lower b" by (simp add: lower_def)
  then show ?thesis unfolding py_in_iff by blast
qed

lemma py_in_append: "py_in k s \<or> py_in k u \<Longrightarrow> py_in k (s @ sep @ u)"
  unfolding py_in_iff
proof (elim disjE exE)
  fix a b assume "s = a @ k @ b"
  then have "s @ sep @ u = a @ k @ (b @ sep @ u)" by simp
  then show "\<exists>a b. s @ sep @ u = a @ k @ b" by blast
next
  fix a b assume "u = a @ k @ b"
  then have "s @ sep @ u = (s @ sep @ a) @ k @ b" by simp
  then show "\<exists>a b. s @ sep @ u = a @ k @ b" by blast
qed

lemma lower_pricing: "lower ''pricing'' = ''pricing''"
  by (simp add: lower_def lower_char_def)

lemma keyword_score_pos: "0 < keyword_score ks c \<longleftrightarrow> (\<exists>k \<in> set ks. py_in k c)"
  by (auto simp: keyword_score_def filter_empty_conv)

lemma fallback_intent_explicit:
  "intent (fallback_intent_parsing p) =
     PyStr (let c = lower (subject p @ '' '' @ email_content p) in
            if 0 < hits intent_keywords ''sales'' c then ''sales''
            else if 0 < hits intent_keywords ''support'' c then ''support''
            else if 0 < hits intent_keywords ''partnership'' c then ''partnership''
            else ''general'')"
proof -
  have k: "keywords_of intent_keywords ''sales'' = snd (intent_keywords ! 0)"
    "keywords_of intent_keywords ''support'' = snd (intent_keywords ! 1)"
    "keywords_of intent_keywords ''partnership'' = snd (intent_keywords ! 2)"
    by (simp_all add: keywords_of_def intent_keywords_def)
  show ?thesis
    unfolding fallback_intent_parsing_def Let_def hits_def keyword_score_pos k
    by (simp add: intent_keywords_def)
qed

lemma best_intent4:
  "best_intent [(a, s1), (b, s2), (c, s3), (d, s4)] =
     (if s1 = 0 \<and> s2 = 0 \<and> s3 = 0 \<and> s4 = 0 then ''general''
      else if s2 \<le> s1 \<and> s3 \<le> s1 \<and> s4 \<le> s1 then a
      else if s3 \<le> s2 \<and> s4 \<le> s2 then b
      else if s4 \<le> s3 then c
      else d)"
  by (auto simp: best_intent_def Let_def)

lemma determine_intent_explicit:
  "determine_intent content subj =
     (let c = lower (subj @ '' '' @ content);
          s1 = hits validation_intent_keywords ''sales'' c;
          s2 = hits validation_intent_keywords ''support'' c;
          s3 = hits validation_intent_keywords ''partnership'' c;
          s4 = hits validation_intent_keywords ''general'' c
      in if s1 = 0 \<and> s2 = 0 \<and> s3 = 0 \<and> s4 = 0 then ''general''
         else if s2 \<le> s1 \<and> s3 \<le> s1 \<and> s4 \<le> s1 then ''sales''
         else if s3 \<le> s2 \<and> s4 \<le> s2 then ''support''
         else if s4 \<le> s3 then ''partnership''
         else ''general'')"
proof -
  let ?c = "lower (subj @ '' '' @ content)"
  have sc: "intent_scores validation_intent_keywords ?c =
      [(''sales'', hits validation_intent_keywords ''sales'' ?c),
       (''support'', hits validation_intent_keywords ''support'' ?c),
       (''partnership'', hits validation_intent_keywords ''partnership'' ?c),
       (''general'', hits validation_intent_keywords ''general'' ?c)]"
    by (simp add: intent_scores_def hits_def keywords_of_def validation_intent_keywords_def)
  show ?thesis
    unfolding determine_intent_def sc best_intent4 Let_def ..
qed

lemma parse_email_falls_back:
  assumes "\<not> success (fst (generate_text m ainvoke (intent_prompt p) sp None))
     \<or> (\<exists>e. json_loads (response (fst (generate_text m ainvoke (intent_prompt p) sp None))) = Inl e)
     \<or> (\<exists>v. json_loads (response (fst (generate_text m ainvoke (intent_prompt p) sp None))) = Inr v
            \<and> (\<forall>d. v \<noteq> PyDict d))"
    and "sp = Some ''You are an expert email parser. Extract intent and key information accurately.''"
  shows "parse_email m ainvoke json_loads p = fallback_intent_parsing p"
  using assms
  by (auto simp: parse_email_def Let_def split: sum.splits pyval.splits)

subsection \<open>The keyword fallback\<close>

text \<open>
  Claim C8 as stated fails on both keyword classifiers. For the subject \<open>Pricing\<close> and the
  body \<open>I need help with an issue\<close>, with every model call failing, the fallback of the
  model path (\<open>_fallback_intent_parsing\<close>) answers \<open>sales\<close> although \<open>support\<close> has two
  keyword hits and \<open>sales\<close> one; and \<open>determine_intent\<close>, which does count hits, answers
  \<open>support\<close> although the text contains the word pricing.
\<close>

theorem keyword_fallback_counterexample:
  "parse_email sample_manager all_down no_json mixed_payload = fallback_intent_parsing mixed_payload
   \<and> py_in ''pricing'' (lower (subject mixed_payload @ '' '' @ email_content mixed_payload))
   \<and> hits intent_keywords ''sales''
         (lower (subject mixed_payload @ '' '' @ email_content mixed_payload)) = 1
   \<and> hits intent_keywords ''support''
         (lower (subject mixed_payload @ '' '' @ email_content mixed_payload)) = 2
   \<and> intent (fallback_intent_parsing mixed_payload) = PyStr ''sales''
   \<and> determine_intent (email_content mixed_payload) (subject mixed_payload) = ''support''"
proof -
  have low: "lower (subject mixed_payload @ '' '' @ email_content mixed_payload)
      = ''pricing i need help with an issue''"
    by code_simp
  have p: "parse_email sample_manager all_down no_json mixed_payload = fallback_intent_parsing mixed_payload"
    by (simp add: parse_email_def no_json_def Let_def)
  have s: "hits intent_keywords ''sales'' ''pricing i need help with an issue'' = 1"
    by (simp add: hits_def keywords_of_def intent_keywords_def keyword_score_def)
  have u: "hits intent_keywords ''support'' ''pricing i need help with an issue'' = 2"
    by (simp add: hits_def keywords_of_def intent_keywords_def keyword_score_def)
  have f: "intent (fallback_intent_parsing mixed_payload) = PyStr ''sales''"
    unfolding fallback_intent_explicit low Let_def using s by simp
  have d: "determine_intent (email_content mixed_payload) (subject mixed_payload) = ''support''"
    unfolding determine_intent_explicit low Let_def
    by (simp add: hits_def keywords_of_def validation_intent_keywords_def keyword_score_def)
  have c: "py_in ''pricing'' ''pricing i need help with an issue''" by simp
  from p c s u f d show ?thesis unfolding low by simp
qed

text \<open>
  Claim C8, amended. Whenever the model path yields no successfully parsed intent JSON
  (generation failed, the JSON parser raised, or the parsed value is not a dictionary),
  \<open>parse_email\<close> returns the keyword fallback. On ASCII subject and body that fallback
  classifies the lowercased subject, space, body as the first of sales, support,
  partnership, general, in this order, that has at least one keyword hit, and as general
  when no keyword occurs; hence an input whose subject or body contains the word pricing is
  classified as sales. \<open>determine_intent\<close>, which never calls a model, returns on ASCII
  subject and body the category with the most keyword hits, the earlier one on a tie, and
  general when no keyword occurs.
\<close>

theorem keyword_fallback:
  "((\<not> success (fst (generate_text m ainvoke (intent_prompt p)
         (Some ''You are an expert email parser. Extract intent and key information accurately.'') None))
     \<or> (\<exists>e. json_loads (response (fst (generate_text m ainvoke (intent_prompt p)
         (Some ''You are an expert email parser. Extract intent and key information accurately.'') None))) = Inl e)
     \<or> (\<exists>v. json_loads (response (fst (generate_text m ainvoke (intent_prompt p)
         (Some ''You are an expert email parser. Extract intent and key information accurately.'') None))) = Inr v
            \<and> (\<forall>d. v \<noteq> PyDict d)))
      \<longrightarrow> parse_email m ainvoke json_loads p = fallback_intent_parsing p)
   \<and> (isascii (subject p) \<and> isascii (email_content p) \<longrightarrow>
        intent (fallback_intent_parsing p) =
          PyStr (let c = lower (subject p @ '' '' @ email_content p) in
                 if 0 < hits intent_keywords ''sales'' c then ''sales''
                 else if 0 < hits intent_keywords ''support'' c then ''support''
                 else if 0 < hits intent_keywords ''partnership'' c then ''partnership''
                 else ''general'')
        \<and> ((py_in ''pricing'' (subject p) \<or> py_in ''pricing'' (email_content p)
             \<or> py_in ''pricing'' (lower (subject p @ '' '' @ email_content p)))
            \<longrightarrow> intent (fallback_intent_parsing p) = PyStr ''sales''))
   \<and> (isascii subj \<and> isascii content \<longrightarrow>
        determine_intent content subj =
          (let c = lower (subj @ '' '' @ content);
               s1 = hits validation_intent_keywords ''sales'' c;
               s2 = hits validation_intent_keywords ''support'' c;
               s3 = hits validation_intent_keywords ''partnership'' c;
               s4 = hits validation_intent_keywords ''general'' c
           in if s1 = 0 \<and> s2 = 0 \<and> s3 = 0 \<and> s4 = 0 then ''general''
              else if s2 \<le> s1 \<and> s3 \<le> s1 \<and> s4 \<le> s1 then ''sales''
              else if s3 \<le> s2 \<and> s4 \<le> s2 then ''support''
              else if s4 \<le> s3 then ''partnership''
              else ''general''))"
proof -
  let ?c = "lower (subject p @ '' '' @ email_content p)"
  have pricing: "intent (fallback_intent_parsing p) = PyStr ''sales''"
    if a: "py_in ''pricing'' (subject p) \<or> py_in ''pricing'' (email_content p) \<or> py_in ''pricing'' ?c"
  proof -
    have "py_in ''pricing'' ?c"
    proof (cases "py_in ''pricing'' ?c")
      case True
      then show ?thesis .
    next
      case False
      with a have "py_in ''pricing'' (subject p) \<or> py_in ''pricing'' (email_content p)" by blast
      then have "py_in ''pricing'' (subject p @ '' '' @ email_content p)" by (rule py_in_append)
      then show ?thesis using py_in_lower lower_pricing by fastforce
    qed
    moreover have "''pricing'' \<in> set (keywords_of intent_keywords ''sales'')"
      by (simp add: keywords_of_def intent_keywords_def)
    ultimately have "0 < hits intent_keywords ''sales'' ?c"
      unfolding hits_def keyword_score_pos by blast
    then show ?thesis unfolding fallback_intent_explicit Let_def by simp
  qed
  show ?thesis
    using parse_email_falls_back [of m ainvoke p _ json_loads] pricing
      fallback_intent_explicit [of p] determine_intent_explicit [of content subj]
    by blast
qed

text \<open>
  Claim C8, the amended statement at a concrete input: all providers down, subject
  \<open>Pricing\<close>, body \<open>I need help with an issue\<close>.
\<close>

theorem keyword_fallback_witness:
  "\<not> success (fst (generate_text sample_manager all_down (intent_prompt mixed_payload)
         (Some ''You are an expert email parser. Extract intent and key information accurately.'') None))
   \<and> parse_email sample_manager all_down no_json mixed_payload = fallback_intent_parsing mixed_payload
   \<and> isascii (subject mixed_payload) \<and> isascii (email_content mixed_payload)
   \<and> py_in ''pricing'' (lower (subject mixed_payload @ '' '' @ email_content mixed_payload))
   \<and> intent (fallback_intent_parsing mixed_payload) = PyStr ''sales''
   \<and> determine_intent (email_content mixed_payload) (subject mixed_payload) = ''support''"
proof -
  have fail: "\<not> success (fst (generate_text sample_manager all_down (intent_prompt mixed_payload)
         (Some ''You are an expert email parser. Extract intent and key information accurately.'') None))"
    by (simp add: llm_defs)
  have asc: "isascii (subject mixed_payload)" "isascii (email_content mixed_payload)"
    by (simp_all add: isascii_def mixed_payload_def)
  have low: "lower (subject mixed_payload @ '' '' @ email_content mixed_payload)
      = ''pricing i need help with an issue''"
    by code_simp
  have c: "py_in ''pricing'' (lower (subject mixed_payload @ '' '' @ email_content mixed_payload))"
    unfolding low by simp
  note T = keyword_fallback
    [where m = sample_manager and ainvoke = all_down and json_loads = no_json and p = mixed_payload
       and subj = "subject mixed_payload" and content = "email_content mixed_payload"]
  from T fail
  have 1: "parse_email sample_manager all_down no_json mixed_payload = fallback_intent_parsing mixed_payload"
    by blast
  from T asc c have 2: "intent (fallback_intent_parsing mixed_payload) = PyStr ''sales''"
    by blast
  from T asc have "determine_intent (email_content mixed_payload) (subject mixed_payload) =
          (let c = lower (subject mixed_payload @ '' '' @ email_content mixed_payload);
               s1 = hits validation_intent_keywords ''sales'' c;
               s2 = hits validation_intent_keywords ''support'' c;
               s3 = hits validation_intent_keywords ''partnership'' c;
               s4 = hits validation_intent_keywords ''general'' c
           in if s1 = 0 \<and> s2 = 0 \<and> s3 = 0 \<and> s4 = 0 then ''general''
              else if s2 \<le> s1 \<and> s3 \<le> s1 \<and> s4 \<le> s1 then ''sales''
              else if s3 \<le> s2 \<and> s4 \<le> s2 then ''support''
              else if s4 \<le> s3 then ''partnership''
              else ''general'')"
    by blast
  then have 3: "determine_intent (email_content mixed_payload) (subject mixed_payload) = ''support''"
    unfolding low Let_def
    by (simp add: hits_def keywords_of_def validation_intent_keywords_def keyword_score_def)
  from fail 1 asc c 2 3 show ?thesis by simp
qed

section \<open>Properties of the sender-name extraction\<close>

subsection \<open>Auxiliary facts\<close>

lemmas regex_defs =
  extract_sender_name_fallback_def patterns_def lits_def re_search_def strip_def
  remove_quotes_def py_isspace_def lower_char_def Let_def

lemma try_patterns_none:
  "\<forall>p \<in> set ps. re_search p s = None \<Longrightarrow> try_patterns ps s = None"
  by (induction ps) simp_all

lemma extract_none_on_failure:
  "\<not> success (fst (generate_text m ainvoke etext (Some extract_sender_name_prompt) pref))
     \<Longrightarrow> extract_sender_name m ainvoke etext pref = None"
  by (simp add: extract_sender_name_def Let_def)

lemma lits_fail:
  "\<not> starts_with (lower k) (lower s) \<Longrightarrow> re_match (lits k @ r) prev s cap = None"
proof (induction k arbitrary: s prev cap)
  case Nil
  then show ?case by (simp add: lower_def)
next
  case (Cons c k)
  show ?case
  proof (cases s)
    case Nil
    then show ?thesis by (simp add: lits_def)
  next
    case (Cons x xs)
    show ?thesis
    proof (cases "lower_char x = lower_char c")
      case True
      with Cons.prems Cons have "\<not> starts_with (lower k) (lower xs)" by (simp add: lower_def)
      from Cons.IH [OF this] have "re_match (lits k @ r) (Some x) xs (push cap x) = None" .
      with True Cons show ?thesis by (simp add: lits_def)
    next
      case False
      with Cons show ?thesis by (simp add: lits_def)
    qed
  qed
qed

lemma star_group:
  "re_match [Star (NotIn cs), GroupClose] prev s (Inside acc) =
     Some (rev acc @ takeWhile (\<lambda>x. x \<notin> set cs) s)"
  by (induction s arbitrary: prev acc) simp_all

lemma lower_From: "lower ''From:'' = ''from:''"
  by (simp add: lower_def lower_char_def)

lemma lower_From_Jane: "lower ''From: Jane Doe'' = ''from: jane doe''"
  by (simp add: lower_def lower_char_def)

lemma lower_append: "lower (s @ u) = lower s @ lower u"
  by (simp add: lower_def)

lemma from_no_overlap:
  assumes "u \<noteq> []" and "\<not> starts_with ''from:'' (lower u)"
  shows "\<not> starts_with ''from:'' (lower (u @ ''From: Jane Doe'' @ b))"
proof -
  have l: "lower (u @ ''From: Jane Doe'' @ b) = lower u @ ''from: jane doe'' @ lower b"
    by (simp only: lower_append lower_From_Jane)
  show ?thesis
  proof (cases "lower u")
    case Nil
    with assms show ?thesis by (simp add: lower_def)
  next
    case u1: (Cons x1 r1)
    show ?thesis
    proof (cases r1)
      case Nil
      with u1 show ?thesis unfolding l by simp
    next
      case u2: (Cons x2 r2)
      show ?thesis
      proof (cases r2)
        case Nil
        with u1 u2 show ?thesis unfolding l by simp
      next
        case u3: (Cons x3 r3)
        show ?thesis
        proof (cases r3)
          case Nil
          with u1 u2 u3 show ?thesis unfolding l by simp
        next
          case u4: (Cons x4 r4)
          show ?thesis
          proof (cases r4)
            case Nil
            with u1 u2 u3 u4 show ?thesis unfolding l by simp
          next
            case u5: (Cons x5 r5)
            with u1 u2 u3 u4 assms(2) show ?thesis unfolding l by simp
          qed
        qed
      qed
    qed
  qed
qed

lemma from_skip:
  assumes "\<not> py_in ''from:'' (lower a)"
  shows "\<exists>prev'. re_search_from (lits ''From:'' @ r) prev (a @ ''From: Jane Doe'' @ b)
           = re_search_from (lits ''From:'' @ r) prev' (''From: Jane Doe'' @ b)"
  using assms
proof (induction a arbitrary: prev)
  case Nil
  show ?case by (rule exI [of _ prev]) simp
next
  case (Cons x a)
  from Cons.prems have ns: "\<not> starts_with ''from:'' (lower (x # a))"
    and np: "\<not> py_in ''from:'' (lower a)"
    by (simp_all add: lower_def)
  have "x # a \<noteq> []" by simp
  from from_no_overlap [OF this ns]
  have "\<not> starts_with (lower ''From:'') (lower ((x # a) @ ''From: Jane Doe'' @ b))"
    unfolding lower_From .
  from lits_fail [OF this]
  have "re_match (lits ''From:'' @ r) prev ((x # a) @ ''From: Jane Doe'' @ b) Before = None" .
  then have step: "re_search_from (lits ''From:'' @ r) prev ((x # a) @ ''From: Jane Doe'' @ b)
      = re_search_from (lits ''From:'' @ r) (Some x) (a @ ''From: Jane Doe'' @ b)"
    by simp
  from Cons.IH [OF np, of "Some x"] obtain prev' where
    "re_search_from (lits ''From:'' @ r) (Some x) (a @ ''From: Jane Doe'' @ b)
       = re_search_from (lits ''From:'' @ r) prev' (''From: Jane Doe'' @ b)" by blast
  with step show ?case by (intro exI [of _ prev']) simp
qed

lemma from_here:
  "re_search_from
     (lits ''From:'' @ [Star Space, GroupOpen, Plus (NotIn [CHR ''<'', CHR 0x0A]), GroupClose])
     prev (''From: Jane Doe'' @ b)
   = Some (''Jane Doe'' @ takeWhile (\<lambda>c. c \<noteq> CHR ''<'' \<and> c \<noteq> CHR 0x0A) b)"
  by (simp add: lits_def py_isspace_def lower_char_def star_group)

lemma from_search:
  assumes "\<not> py_in ''from:'' (lower a)"
  shows "re_search (hd patterns) (a @ ''From: Jane Doe'' @ b)
     = Some (''Jane Doe'' @ takeWhile (\<lambda>c. c \<noteq> CHR ''<'' \<and> c \<noteq> CHR 0x0A) b)"
proof -
  have hd: "hd patterns =
      lits ''From:'' @ [Star Space, GroupOpen, Plus (NotIn [CHR ''<'', CHR 0x0A]), GroupClose]"
    by (simp add: patterns_def)
  from from_skip [OF assms] obtain prev' where
    "re_search_from (hd patterns) None (a @ ''From: Jane Doe'' @ b)
       = re_search_from (hd patterns) prev' (''From: Jane Doe'' @ b)"
    unfolding hd by blast
  then show ?thesis unfolding re_search_def hd from_here .
qed

lemma strip_jane:
  "strip (''Jane Doe'' @ t) = ''Jane Doe'' @ rev (dropWhile py_isspace (rev t))"
proof (cases "dropWhile py_isspace (rev t) = []")
  case True
  then have "\<forall>x \<in> set (rev t). py_isspace x" by (simp add: dropWhile_eq_Nil_conv)
  then have "dropWhile py_isspace (rev t @ rev ''Jane Doe'') = dropWhile py_isspace (rev ''Jane Doe'')"
    by (intro dropWhile_append2) blast
  with True show ?thesis by (simp add: strip_def py_isspace_def)
next
  case False
  then obtain x where x: "x \<in> set (rev t)" "\<not> py_isspace x"
    by (auto simp: dropWhile_eq_Nil_conv)
  then have "dropWhile py_isspace (rev t @ rev ''Jane Doe'') = dropWhile py_isspace (rev t) @ rev ''Jane Doe''"
    by (rule dropWhile_append1)
  then show ?thesis by (simp add: strip_def py_isspace_def)
qed

lemma rq_jane: "remove_quotes (''Jane Doe'' @ u) = ''Jane Doe'' @ remove_quotes u"
  by (simp add: remove_quotes_def)

lemma sp_consts:
  "\<not> py_isspace CHR ''J''" "\<not> py_isspace CHR ''a''" "\<not> py_isspace CHR ''n''"
  "\<not> py_isspace CHR ''e''" "py_isspace CHR '' ''" "\<not> py_isspace CHR ''D''"
  "\<not> py_isspace CHR ''o''"
  by (simp_all add: py_isspace_def)

lemma nw_jane: "normalize_whitespace (''Jane Doe'' @ u) = ''Jane Doe'' @ normalize_whitespace u"
  by (simp add: sp_consts)

lemma clean_jane:
  "normalize_whitespace (remove_quotes (strip (''Jane Doe'' @ t)))
     = ''Jane Doe'' @ normalize_whitespace (remove_quotes (rev (dropWhile py_isspace (rev t))))"
  by (simp only: strip_jane rq_jane nw_jane)

lemma fallback_from:
  assumes "\<not> py_in ''from:'' (lower a)"
  shows "extract_sender_name_fallback (a @ ''From: Jane Doe'' @ b) =
     Some (normalize_whitespace (remove_quotes (strip
             (''Jane Doe'' @ takeWhile (\<lambda>c. c \<noteq> CHR ''<'' \<and> c \<noteq> CHR 0x0A) b))))"
proof -
  let ?t = "takeWhile (\<lambda>c. c \<noteq> CHR ''<'' \<and> c \<noteq> CHR 0x0A) b"
  let ?cleaned = "normalize_whitespace (remove_quotes (strip (''Jane Doe'' @ ?t)))"
  have p: "patterns = hd patterns # tl patterns" by (simp add: patterns_def)
  have len: "?cleaned \<noteq> [] \<and> length ?cleaned > 1" unfolding clean_jane by simp
  have "try_patterns (hd patterns # tl patterns) (a @ ''From: Jane Doe'' @ b) = Some ?cleaned"
    unfolding try_patterns.simps from_search [OF assms] using len by (simp add: Let_def)
  with p show ?thesis unfolding extract_sender_name_fallback_def by simp
qed

lemma clean_only_whitespace:
  assumes "list_all py_isspace t"
  shows "normalize_whitespace (remove_quotes (strip (''Jane Doe'' @ t))) = ''Jane Doe''"
proof -
  from assms have "\<forall>x \<in> set (rev t). py_isspace x" by (simp add: list_all_iff)
  then have d: "dropWhile py_isspace (rev t) = []" by (simp add: dropWhile_eq_Nil_conv)
  show ?thesis unfolding clean_jane d by (simp add: remove_quotes_def)
qed

subsection \<open>The regex fallback\<close>

text \<open>
  Claim C9 as stated fails three times. With every model call failing,
  \<open>LLMManager.extract_sender_name\<close> returns \<open>None\<close> for a text on which the regex fallback
  would find the name: the fallback is not called. A text that contains \<open>From: Jane Doe\<close>
  need not yield \<open>Jane Doe\<close>: the group runs to the end of the line. And the search stops
  at the first \<open>from:\<close> of the text, in any letter case, which may stand before
  \<open>From: Jane Doe\<close>.
\<close>

theorem sender_name_fallback_counterexample:
  "\<not> success (fst (generate_text sample_manager all_down
          (''From: Jane Doe'' @ [CHR 0x0A] @ ''Hello'') (Some extract_sender_name_prompt) None))
   \<and> extract_sender_name sample_manager all_down
         (''From: Jane Doe'' @ [CHR 0x0A] @ ''Hello'') None = None
   \<and> extract_sender_name_fallback (''From: Jane Doe'' @ [CHR 0x0A] @ ''Hello'') = Some ''Jane Doe''
   \<and> extract_sender_name_fallback ''From: Jane Doe Smith'' = Some ''Jane Doe Smith''
   \<and> extract_sender_name_fallback
         (''x from: Bob'' @ [CHR 0x0A] @ ''From: Jane Doe'' @ [CHR 0x0A]) = Some ''Bob''"
proof -
  have 1: "\<not> success (fst (generate_text sample_manager all_down
          (''From: Jane Doe'' @ [CHR 0x0A] @ ''Hello'') (Some extract_sender_name_prompt) None))"
    by (simp add: llm_defs)
  then have 2: "extract_sender_name sample_manager all_down
         (''From: Jane Doe'' @ [CHR 0x0A] @ ''Hello'') None = None"
    by (rule extract_none_on_failure)
  have 3: "extract_sender_name_fallback (''From: Jane Doe'' @ [CHR 0x0A] @ ''Hello'') = Some ''Jane Doe''"
    by (simp add: regex_defs)
  have 4: "extract_sender_name_fallback ''From: Jane Doe Smith'' = Some ''Jane Doe Smith''"
    by (simp add: regex_defs)
  have 5: "extract_sender_name_fallback
         (''x from: Bob'' @ [CHR 0x0A] @ ''From: Jane Doe'' @ [CHR 0x0A]) = Some ''Bob''"
    by (simp add: regex_defs)
  from 1 2 3 4 5 show ?thesis by simp
qed

text \<open>
  Claim C9, amended. When every model call fails, \<open>LLMManager.extract_sender_name\<close>
  returns \<open>None\<close>; it does not raise and does not consult the regex patterns. The regex
  function \<open>extract_sender_name_fallback\<close> is total. On an ASCII text that contains
  \<open>From: Jane Doe\<close> with no \<open>from:\<close>, in any letter case, before it, the function returns
  the line from \<open>Jane Doe\<close> up to the next \<open><\<close> or line feed, stripped, without quotes and
  with every run of whitespace replaced by one space; that is \<open>Jane Doe\<close> when only
  whitespace follows on that stretch. When no pattern matches an ASCII text it returns
  \<open>None\<close>.
\<close>

theorem sender_name_fallback:
  "(\<not> success (fst (generate_text m ainvoke etext (Some extract_sender_name_prompt) pref))
      \<longrightarrow> extract_sender_name m ainvoke etext pref = None)
   \<and> (isascii a \<and> isascii b \<and> \<not> py_in ''from:'' (lower a) \<longrightarrow>
        extract_sender_name_fallback (a @ ''From: Jane Doe'' @ b) =
          Some (normalize_whitespace (remove_quotes (strip
                  (''Jane Doe'' @ takeWhile (\<lambda>c. c \<noteq> CHR ''<'' \<and> c \<noteq> CHR 0x0A) b))))
        \<and> (list_all py_isspace (takeWhile (\<lambda>c. c \<noteq> CHR ''<'' \<and> c \<noteq> CHR 0x0A) b) \<longrightarrow>
             extract_sender_name_fallback (a @ ''From: Jane Doe'' @ b) = Some ''Jane Doe''))
   \<and> (isascii s \<and> (\<forall>p \<in> set patterns. re_search p s = None)
        \<longrightarrow> extract_sender_name_fallback s = None)"
proof -
  have line: "extract_sender_name_fallback (a @ ''From: Jane Doe'' @ b) =
          Some (normalize_whitespace (remove_quotes (strip
                  (''Jane Doe'' @ takeWhile (\<lambda>c. c \<noteq> CHR ''<'' \<and> c \<noteq> CHR 0x0A) b))))"
    if "\<not> py_in ''from:'' (lower a)"
    using that by (rule fallback_from)
  have only: "extract_sender_name_fallback (a @ ''From: Jane Doe'' @ b) = Some ''Jane Doe''"
    if "\<not> py_in ''from:'' (lower a)"
      and "list_all py_isspace (takeWhile (\<lambda>c. c \<noteq> CHR ''<'' \<and> c \<noteq> CHR 0x0A) b)"
    using fallback_from [OF that(1), of b] clean_only_whitespace [OF that(2)] by (simp only:)
  have none: "(\<forall>p \<in> set patterns. re_search p s = None) \<longrightarrow> extract_sender_name_fallback s = None"
    by (simp add: extract_sender_name_fallback_def try_patterns_none)
  from line only none extract_none_on_failure [of m ainvoke etext pref]
  show ?thesis by blast
qed

text \<open>
  Claim C9, the amended statement at concrete inputs: all providers down; a header line
  \<open>From: Jane Doe  <jane@example.com>\<close> after a greeting; and a text that no pattern
  matches.
\<close>

theorem sender_name_fallback_witness:
  "\<not> success (fst (generate_text sample_manager all_down ''From: Jane Doe''
          (Some extract_sender_name_prompt) None))
   \<and> extract_sender_name sample_manager all_down ''From: Jane Doe'' None = None
   \<and> isascii (''Hello,'' @ [CHR 0x0A]) \<and> isascii (''  <jane@example.com>'' @ [CHR 0x0A] @ ''Bye'')
   \<and> \<not> py_in ''from:'' (lower (''Hello,'' @ [CHR 0x0A]))
   \<and> list_all py_isspace
        (takeWhile (\<lambda>c. c \<noteq> CHR ''<'' \<and> c \<noteq> CHR 0x0A)
           (''  <jane@example.com>'' @ [CHR 0x0A] @ ''Bye''))
   \<and> extract_sender_name_fallback
        ((''Hello,'' @ [CHR 0x0A]) @ ''From: Jane Doe'' @ ''  <jane@example.com>'' @ [CHR 0x0A] @ ''Bye'')
       = Some ''Jane Doe''
   \<and> isascii ''hello there''
   \<and> list_all (\<lambda>p. re_search p ''hello there'' = None) patterns
   \<and> extract_sender_name_fallback ''hello there'' = None"
proof -
  have down: "\<not> success (fst (generate_text sample_manager all_down ''From: Jane Doe''
          (Some extract_sender_name_prompt) None))"
    by (simp add: llm_defs)
  have asc: "isascii (''Hello,'' @ [CHR 0x0A])"
    "isascii (''  <jane@example.com>'' @ [CHR 0x0A] @ ''Bye'')" "isascii ''hello there''"
    by (simp_all add: isascii_def)
  have nofrom: "\<not> py_in ''from:'' (lower (''Hello,'' @ [CHR 0x0A]))"
    by (simp add: lower_def lower_char_def)
  have ws: "list_all py_isspace
        (takeWhile (\<lambda>c. c \<noteq> CHR ''<'' \<and> c \<noteq> CHR 0x0A)
           (''  <jane@example.com>'' @ [CHR 0x0A] @ ''Bye''))"
    by (simp add: py_isspace_def)
  have nomatch: "\<forall>p \<in> set patterns. re_search p ''hello there'' = None"
    by (simp add: regex_defs)
  note T = sender_name_fallback
    [where m = sample_manager and ainvoke = all_down and etext = "''From: Jane Doe''"
       and pref = None and s = "''hello there''" and a = "''Hello,'' @ [CHR 0x0A]"
       and b = "''  <jane@example.com>'' @ [CHR 0x0A] @ ''Bye''"]
  from T down have 1: "extract_sender_name sample_manager all_down ''From: Jane Doe'' None = None"
    by blast
  from T asc(1,2) nofrom ws
  have 2: "extract_sender_name_fallback
        ((''Hello,'' @ [CHR 0x0A]) @ ''From: Jane Doe'' @ ''  <jane@example.com>'' @ [CHR 0x0A] @ ''Bye'')
       = Some ''Jane Doe''"
    by blast
  from T asc(3) nomatch have 3: "extract_sender_name_fallback ''hello there'' = None"
    by blast
  from nomatch have listed: "list_all (\<lambda>p. re_search p ''hello there'' = None) patterns"
    by (simp add: list_all_iff)
  from down 1 asc nofrom ws 2 listed 3 show ?thesis by blast
qed

section \<open>Properties of batch processing\<close>

subsection \<open>Auxiliary facts\<close>

lemma gather_length [simp]: "length (gather_return_exceptions task emails) = length emails"
  by (simp add: gather_return_exceptions_def)

lemma gather_nth:
  "i < length emails \<Longrightarrow> gather_return_exceptions task emails ! i = task i (emails ! i)"
  by (simp add: gather_return_exceptions_def nth_enumerate_eq)

lemma manager_batch_length:
  "length (AIProviderManager_batch_process_emails task emails) = length emails"
  by (simp add: AIProviderManager_batch_process_emails_def)

lemma manager_batch_nth:
  assumes "i < length emails"
  shows "AIProviderManager_batch_process_emails task emails ! i =
           (case task i (emails ! i) of Inl e \<Rightarrow> error_marker e (emails ! i) | Inr r \<Rightarrow> r)"
  using assms
  by (simp add: AIProviderManager_batch_process_emails_def nth_enumerate_eq gather_nth)

lemma batch_loop_length:
  "length (batch_loop extract_name generate_reply n emails) = length emails"
  by (induction emails arbitrary: n) simp_all

lemma batch_loop_nth:
  "i < length emails \<Longrightarrow>
     batch_loop extract_name generate_reply n emails ! i
       = batch_result extract_name generate_reply (n + i) (emails ! i)"
proof (induction emails arbitrary: n i)
  case Nil
  then show ?case by simp
next
  case (Cons email rest)
  show ?case
  proof (cases i)
    case 0
    then show ?thesis by simp
  next
    case (Suc j)
    with Cons.prems have "j < length rest" by simp
    from Cons.IH [OF this, of "Suc n"] Suc show ?thesis by simp
  qed
qed

lemma batch_result_index:
  "\<exists>d. batch_result extract_name generate_reply i email = PyDict d
        \<and> map_of d ''index'' = Some (PyInt (int i))"
  by (auto simp: batch_result_def batch_entry_def failed_entry_def split: sum.splits if_splits)

lemma batch_result_failed:
  "batch_entry extract_name generate_reply i email = Inl e \<Longrightarrow>
     batch_result extract_name generate_reply i email = failed_entry i e"
  by (simp add: batch_result_def)

subsection \<open>Positional results\<close>

text \<open>
  What \<open>AIProviderManager.batch_process_emails\<close> returns, and what the loop of the endpoint
  builds: one entry per email, in input order; the entry at index \<open>i\<close> is decided by the
  processing of the email at index \<open>i\<close> alone, an error marker where it raised.
\<close>

lemma manager_batch_positional:
  "length (AIProviderManager_batch_process_emails task emails) = length emails
   \<and> (\<forall>i < length emails.
         AIProviderManager_batch_process_emails task emails ! i =
           (case task i (emails ! i) of Inl e \<Rightarrow> error_marker e (emails ! i) | Inr r \<Rightarrow> r))
   \<and> (\<forall>i < length emails. task i (emails ! i) = task' i (emails ! i) \<longrightarrow>
         AIProviderManager_batch_process_emails task emails ! i =
         AIProviderManager_batch_process_emails task' emails ! i)"
  by (simp add: manager_batch_length manager_batch_nth)

lemma batch_loop_positional:
  "length (batch_loop extract_name generate_reply 0 emails) = length emails
   \<and> (\<forall>i < length emails.
         batch_loop extract_name generate_reply 0 emails ! i =
           (case batch_entry extract_name generate_reply i (emails ! i) of
              Inl e \<Rightarrow> failed_entry i e
            | Inr r \<Rightarrow> r)
         \<and> (\<exists>d. batch_loop extract_name generate_reply 0 emails ! i = PyDict d
                \<and> map_of d ''index'' = Some (PyInt (int i))))"
proof -
  have c: "\<forall>i < length emails.
         batch_loop extract_name generate_reply 0 emails ! i =
           (case batch_entry extract_name generate_reply i (emails ! i) of
              Inl e \<Rightarrow> failed_entry i e
            | Inr r \<Rightarrow> r)
         \<and> (\<exists>d. batch_loop extract_name generate_reply 0 emails ! i = PyDict d
                \<and> map_of d ''index'' = Some (PyInt (int i)))"
  proof (intro allI impI)
    fix i assume "i < length emails"
    then have "batch_loop extract_name generate_reply 0 emails ! i
        = batch_result extract_name generate_reply i (emails ! i)"
      using batch_loop_nth [of i emails extract_name generate_reply 0] by simp
    then show "batch_loop extract_name generate_reply 0 emails ! i =
           (case batch_entry extract_name generate_reply i (emails ! i) of
              Inl e \<Rightarrow> failed_entry i e
            | Inr r \<Rightarrow> r)
         \<and> (\<exists>d. batch_loop extract_name generate_reply 0 emails ! i = PyDict d
                \<and> map_of d ''index'' = Some (PyInt (int i)))"
      using batch_result_index [of extract_name generate_reply i "emails ! i"]
      by (simp add: batch_result_def split: sum.splits)
  qed
  with batch_loop_length [of extract_name generate_reply 0 emails] show ?thesis by blast
qed

lemma manager_batch_five:
  "AIProviderManager_batch_process_emails third_task_raises five_emails =
     [PyDict [(''success'', PyBool True)],
      PyDict [(''success'', PyBool True)],
      error_marker (Exception ''boom'') (PyDict [(''content'', PyStr ''three'')]),
      PyDict [(''success'', PyBool True)],
      PyDict [(''success'', PyBool True)]]"
  by (simp add: AIProviderManager_batch_process_emails_def gather_return_exceptions_def
      third_task_raises_def five_emails_def)

lemma batch_loop_five:
  "batch_loop extract_third_raises reply_thanks 0 five_emails =
     [PyDict [(''index'', PyInt 0), (''success'', PyBool True),
              (''sender_name'', PyStr ''Jane''), (''reply'', PyStr ''Thanks'')],
      PyDict [(''index'', PyInt 1), (''success'', PyBool True),
              (''sender_name'', PyStr ''Bob''), (''reply'', PyStr ''Thanks'')],
      PyDict [(''index'', PyInt 2), (''success'', PyBool False), (''error'', PyStr ''boom'')],
      PyDict [(''index'', PyInt 3), (''success'', PyBool True),
              (''sender_name'', PyStr ''Jane''), (''reply'', PyStr ''Thanks'')],
      PyDict [(''index'', PyInt 4), (''success'', PyBool True),
              (''sender_name'', PyStr ''Jane''), (''reply'', PyStr ''Thanks'')]]"
  by (simp add: five_emails_def batch_result_def batch_entry_def py_get_def dict_get_def
      py_or_def reply_thanks_def extract_third_raises_def failed_entry_def eval_nat_numeral)

subsection \<open>The endpoint\<close>

text \<open>
  \<open>log_request\<close> is not an attribute of \<open>FileLogger\<close>, so the statement after the loop raises
  and the endpoint answers \<open>HTTPException(500)\<close> on every input.
\<close>

lemma log_request_missing:
  "FileLogger_getattr ''log_request'' =
     Inl (AttributeError ([CHR 0x27] @ ''FileLogger'' @ [CHR 0x27] @
            '' object has no attribute '' @ [CHR 0x27] @ ''log_request'' @ [CHR 0x27]))"
  by (simp add: FileLogger_getattr_def FileLogger_attributes_def)

lemma web_batch_always_500:
  "web_batch_process_emails extract_name generate_reply emails =
     Inl (HTTPException 500 ([CHR 0x27] @ ''FileLogger'' @ [CHR 0x27] @
            '' object has no attribute '' @ [CHR 0x27] @ ''log_request'' @ [CHR 0x27]))"
  unfolding web_batch_process_emails_def Let_def log_request_missing by simp

text \<open>
  Claim C7 says that batch processing returns, for \<open>N\<close> emails, a list of \<open>N\<close> entries in
  input order, with an error marker at the index whose processing raised and every other
  entry unaffected. On five emails, with the name extraction of index 2 raising, the loop
  of the endpoint builds exactly that list, entry 2 being the failure entry; the endpoint
  then fails on its logging statement and answers \<open>HTTPException(500)\<close> instead of returning
  the list.
\<close>

theorem batch_endpoint_http_500:
  "length five_emails = 5
   \<and> batch_loop extract_third_raises reply_thanks 0 five_emails =
     [PyDict [(''index'', PyInt 0), (''success'', PyBool True),
              (''sender_name'', PyStr ''Jane''), (''reply'', PyStr ''Thanks'')],
      PyDict [(''index'', PyInt 1), (''success'', PyBool True),
              (''sender_name'', PyStr ''Bob''), (''reply'', PyStr ''Thanks'')],
      PyDict [(''index'', PyInt 2), (''success'', PyBool False), (''error'', PyStr ''boom'')],
      PyDict [(''index'', PyInt 3), (''success'', PyBool True),
              (''sender_name'', PyStr ''Jane''), (''reply'', PyStr ''Thanks'')],
      PyDict [(''index'', PyInt 4), (''success'', PyBool True),
              (''sender_name'', PyStr ''Jane''), (''reply'', PyStr ''Thanks'')]]
   \<and> web_batch_process_emails extract_third_raises reply_thanks five_emails =
     Inl (HTTPException 500 ([CHR 0x27] @ ''FileLogger'' @ [CHR 0x27] @
            '' object has no attribute '' @ [CHR 0x27] @ ''log_request'' @ [CHR 0x27]))"
  using batch_loop_five web_batch_always_500 [of extract_third_raises reply_thanks five_emails]
  by (simp add: five_emails_def)

section \<open>Properties of the email agent\<close>

subsection \<open>Auxiliary facts\<close>

lemma fallback_response_value:
  "fallback_response r =
     Inr \<lparr> resp_subject = PyStr new_customer_subject, resp_body = PyStr (new_customer_body r),
           resp_intent = PyStr (intent_or_general r), customer_type = ''new_lead'',
           is_new_lead = True, sent = PyBool True, message_id = PyNone \<rparr>"
  by (simp add: fallback_response_def generate_fallback_email_def subscript_def)

lemma process_email_cases:
  "fst (process_email env r c) =
     (case fst (process_email_try env r c) of Inr resp \<Rightarrow> Inr resp | Inl e \<Rightarrow> fallback_response r)"
  by (simp add: process_email_def split: prod.splits sum.splits)

lemma respond_sent:
  assumes "respond env r new_lead content = Inr resp"
  shows "\<exists>subj body sr. send_email env (req_from_email r) subj body = Inr sr
           \<and> subscript sr ''success'' = Inr (sent resp)
           \<and> subscript content ''subject'' = Inr (resp_subject resp)
           \<and> subscript content ''body'' = Inr (resp_body resp)
           \<and> subscript content ''intent'' = Inr (resp_intent resp)"
  using assms
  by (fastforce simp: respond_def split: sum.splits if_splits)

lemma try_sent:
  assumes "fst (process_email_try env r c) = Inr resp"
  shows "\<exists>subj body sr. send_email env (req_from_email r) subj body = Inr sr
           \<and> subscript sr ''success'' = Inr (sent resp)"
proof -
  from assms obtain new_lead content where "respond env r new_lead content = Inr resp"
    by (auto simp: process_email_try_def Let_def split: sum.splits prod.splits)
  from respond_sent [OF this] show ?thesis by blast
qed

lemma content_fallback:
  assumes "\<not> truthy (fst (CacheService_get c (cache_key r new_lead) (t_get env) (t_access env)))"
    and "\<not> success (fst (generate_text (registry env) (invoke env)
              (if new_lead then build_new_customer_prompt r else build_existing_customer_prompt r)
              (Some ''You are a professional email assistant for Thryvix AI. Generate appropriate email responses.'')
              None))
         \<or> (\<exists>e. parse_json env (response (fst (generate_text (registry env) (invoke env)
              (if new_lead then build_new_customer_prompt r else build_existing_customer_prompt r)
              (Some ''You are a professional email assistant for Thryvix AI. Generate appropriate email responses.'')
              None))) = Inl e)"
  shows "fst (generate_email_content env r new_lead c) = generate_fallback_email r new_lead"
  using assms
  by (auto simp: generate_email_content_def Let_def split: prod.splits sum.splits)

lemmas agent_defs =
  process_email_def process_email_try_def generate_email_content_def respond_def
  subscript_def py_get_def dict_get_def fallback_response_def generate_fallback_email_def
  cache_key_def

subsection \<open>A reply in every case\<close>

text \<open>
  Claim C6 as stated fails in its second half. For an existing lead whose model answer is
  not JSON, a \<open>JSONDecodeError\<close> is raised during processing and caught inside
  \<open>_generate_email_content\<close>; the reply is the template for existing customers, and with a
  send step that reports failure the response says \<open>sent = False\<close>.
\<close>

theorem process_email_sent_counterexample:
  "parse_json not_json_env
     (response (fst (generate_text (registry not_json_env) (invoke not_json_env)
        (build_existing_customer_prompt sample_request)
        (Some ''You are a professional email assistant for Thryvix AI. Generate appropriate email responses.'')
        None)))
     = Inl (JSONDecodeError ''Expecting value'')
   \<and> fst (process_email not_json_env sample_request CacheService_init) =
       Inr \<lparr> resp_subject = PyStr (existing_customer_subject sample_request),
             resp_body = PyStr (existing_customer_body sample_request),
             resp_intent = PyStr ''general'', customer_type = ''existing_lead'',
             is_new_lead = False, sent = PyBool False, message_id = PyNone \<rparr>"
  by (simp add: agent_defs cache_defs llm_defs not_json_env_def sample_request_def
      intent_or_general_def)

text \<open>
  Claim C6, amended. For every email request \<open>process_email\<close> returns a response and lets
  no exception out. When the \<open>try\<close> block raises, that is when an exception reaches the
  handler of \<open>process_email\<close>, the response is the hand-written email for new customers
  with \<open>sent = True\<close>. When the \<open>try\<close> block returns, its response is returned and \<open>sent\<close>
  is the success flag that the send step reported. When the cache holds nothing usable and
  the generation fails or the answer does not parse, the content is the hand-written email
  for the lead type.
\<close>

theorem process_email_always_replies:
  "(\<exists>resp. fst (process_email env r c) = Inr resp)
   \<and> ((\<exists>e. fst (process_email_try env r c) = Inl e) \<longrightarrow>
        fst (process_email env r c) =
          Inr \<lparr> resp_subject = PyStr new_customer_subject,
                resp_body = PyStr (new_customer_body r),
                resp_intent = PyStr (intent_or_general r), customer_type = ''new_lead'',
                is_new_lead = True, sent = PyBool True, message_id = PyNone \<rparr>)
   \<and> (\<forall>resp. fst (process_email_try env r c) = Inr resp \<longrightarrow>
        fst (process_email env r c) = Inr resp
        \<and> (\<exists>subj body sr. send_email env (req_from_email r) subj body = Inr sr
               \<and> subscript sr ''success'' = Inr (sent resp)))
   \<and> (\<not> truthy (fst (CacheService_get c (cache_key r new_lead) (t_get env) (t_access env)))
       \<and> (\<not> success (fst (generate_text (registry env) (invoke env)
              (if new_lead then build_new_customer_prompt r else build_existing_customer_prompt r)
              (Some ''You are a professional email assistant for Thryvix AI. Generate appropriate email responses.'')
              None))
           \<or> (\<exists>e. parse_json env (response (fst (generate_text (registry env) (invoke env)
              (if new_lead then build_new_customer_prompt r else build_existing_customer_prompt r)
              (Some ''You are a professional email assistant for Thryvix AI. Generate appropriate email responses.'')
              None))) = Inl e))
       \<longrightarrow> fst (generate_email_content env r new_lead c) = generate_fallback_email r new_lead)"
proof -
  have always: "\<exists>resp. fst (process_email env r c) = Inr resp"
    unfolding process_email_cases
    by (cases "fst (process_email_try env r c)") (simp_all add: fallback_response_value)
  have handler: "fst (process_email env r c) =
          Inr \<lparr> resp_subject = PyStr new_customer_subject,
                resp_body = PyStr (new_customer_body r),
                resp_intent = PyStr (intent_or_general r), customer_type = ''new_lead'',
                is_new_lead = True, sent = PyBool True, message_id = PyNone \<rparr>"
    if "\<exists>e. fst (process_email_try env r c) = Inl e"
    using that unfolding process_email_cases by (auto simp: fallback_response_value)
  have normal: "fst (process_email env r c) = Inr resp
        \<and> (\<exists>subj body sr. send_email env (req_from_email r) subj body = Inr sr
               \<and> subscript sr ''success'' = Inr (sent resp))"
    if "fst (process_email_try env r c) = Inr resp" for resp
    using that try_sent [OF that] unfolding process_email_cases by simp
  from always handler normal content_fallback [of c r new_lead env]
  show ?thesis by blast
qed

text \<open>
  Claim C6, the amended statement at concrete inputs: a model answer that parses to a bare
  string, on which the subscript raises and the handler answers; and an answer that is not
  JSON, with a failing send.
\<close>

theorem process_email_always_replies_witness:
  "fst (process_email_try bare_string_env sample_request CacheService_init)
     = Inl (TypeError ''string indices must be integers'')
   \<and> fst (process_email bare_string_env sample_request CacheService_init) =
       Inr \<lparr> resp_subject = PyStr new_customer_subject,
             resp_body = PyStr (new_customer_body sample_request),
             resp_intent = PyStr (intent_or_general sample_request),
             customer_type = ''new_lead'', is_new_lead = True, sent = PyBool True,
             message_id = PyNone \<rparr>
   \<and> \<not> truthy (fst (CacheService_get CacheService_init (cache_key sample_request False)
                       (t_get not_json_env) (t_access not_json_env)))
   \<and> fst (generate_email_content not_json_env sample_request False CacheService_init)
       = generate_fallback_email sample_request False
   \<and> fst (process_email_try not_json_env sample_request CacheService_init) =
       Inr \<lparr> resp_subject = PyStr (existing_customer_subject sample_request),
             resp_body = PyStr (existing_customer_body sample_request),
             resp_intent = PyStr ''general'', customer_type = ''existing_lead'',
             is_new_lead = False, sent = PyBool False, message_id = PyNone \<rparr>
   \<and> fst (process_email not_json_env sample_request CacheService_init) =
       Inr \<lparr> resp_subject = PyStr (existing_customer_subject sample_request),
             resp_body = PyStr (existing_customer_body sample_request),
             resp_intent = PyStr ''general'', customer_type = ''existing_lead'',
             is_new_lead = False, sent = PyBool False, message_id = PyNone \<rparr>"
proof -
  have raised: "fst (process_email_try bare_string_env sample_request CacheService_init)
     = Inl (TypeError ''string indices must be integers'')"
    by (simp add: agent_defs cache_defs llm_defs bare_string_env_def sample_request_def)
  have miss: "\<not> truthy (fst (CacheService_get CacheService_init (cache_key sample_request False)
                       (t_get not_json_env) (t_access not_json_env)))"
    by (simp add: cache_defs)
  have bad: "\<exists>e. parse_json not_json_env
     (response (fst (generate_text (registry not_json_env) (invoke not_json_env)
        (if False then build_new_customer_prompt sample_request
         else build_existing_customer_prompt sample_request)
        (Some ''You are a professional email assistant for Thryvix AI. Generate appropriate email responses.'')
        None))) = Inl e"
    by (simp add: not_json_env_def)
  have normal: "fst (process_email_try not_json_env sample_request CacheService_init) =
       Inr \<lparr> resp_subject = PyStr (existing_customer_subject sample_request),
             resp_body = PyStr (existing_customer_body sample_request),
             resp_intent = PyStr ''general'', customer_type = ''existing_lead'',
             is_new_lead = False, sent = PyBool False, message_id = PyNone \<rparr>"
    by (simp add: agent_defs cache_defs llm_defs not_json_env_def sample_request_def
        intent_or_general_def)
  note H = process_email_always_replies
    [where env = bare_string_env and r = sample_request and c = CacheService_init]
  note G = process_email_always_replies
    [where env = not_json_env and r = sample_request and c = CacheService_init
       and new_lead = False]
  from H raised
  have 1: "fst (process_email bare_string_env sample_request CacheService_init) =
       Inr \<lparr> resp_subject = PyStr new_customer_subject,
             resp_body = PyStr (new_customer_body sample_request),
             resp_intent = PyStr (intent_or_general sample_request),
             customer_type = ''new_lead'', is_new_lead = True, sent = PyBool True,
             message_id = PyNone \<rparr>"
    by blast
  from G miss bad
  have 2: "fst (generate_email_content not_json_env sample_request False CacheService_init)
       = generate_fallback_email sample_request False"
    by blast
  from G normal
  have 3: "fst (process_email not_json_env sample_request CacheService_init) =
       Inr \<lparr> resp_subject = PyStr (existing_customer_subject sample_request),
             resp_body = PyStr (existing_customer_body sample_request),
             resp_intent = PyStr ''general'', customer_type = ''existing_lead'',
             is_new_lead = False, sent = PyBool False, message_id = PyNone \<rparr>"
    by blast
  from raised 1 miss 2 normal 3 show ?thesis by blast
qed

end
